theory Spec2Isabelle
  imports Main
begin

text \<open>
  A shallow embedding of \<open>csv2sql.go\<close>, a command line tool that loads CSV files into
  SQLite tables and prints the results of queries, and the properties its specification
  claims for it.  The definitions of the first sections follow the source function by
  function and keep its names; the packages it calls (\<open>strings\<close>, \<open>unicode\<close>,
  \<open>database/sql\<close> with the SQLite driver, \<open>encoding/csv\<close>, \<open>os\<close>) are modelled by what
  they return, and what cannot be read off the source (the Unicode tables, the file
  system, the SQL engine, the CSV layout) is a parameter.
\<close>

section \<open>Strings\<close>

text \<open>
  A Go string is a sequence of bytes.  The program compares its strings with ASCII
  constants, tests ASCII prefixes and suffixes, splits at the ASCII byte \<open>/\<close>, and reads
  one string rune by rune (\<open>strings.Map\<close>).  The model keeps a string as the sequence of
  runes that \<open>range\<close> yields on it: the code points of its UTF-8 sequences, and \<open>U+FFFD\<close>
  for each byte that does not decode.  An ASCII byte is a rune of its own and never part
  of a longer sequence, so equality with, and search for, an ASCII string is the same on
  the runes as on the bytes; and \<open>strings.Map\<close> writes the runes it returns in UTF-8, which
  read back as themselves.  \<open>lit\<close> turns an Isabelle string literal (ASCII) into such a
  sequence.
\<close>

type_synonym rune = nat
type_synonym gostring = "rune list"

definition lit :: "string \<Rightarrow> gostring" where
  "lit s = map of_char s"

text \<open>
  \<open>strings.HasPrefix\<close>, \<open>HasSuffix\<close> and \<open>TrimSuffix\<close> as the package defines them, by
  length and slice.  \<open>strings.Index\<close> returns the first position of \<open>substr\<close> (\<open>None\<close> for
  Go's \<open>-1\<close>), \<open>strings.Contains\<close> is \<open>Index \<ge> 0\<close>.
\<close>

definition strings_HasPrefix :: "gostring \<Rightarrow> gostring \<Rightarrow> bool" where
  "strings_HasPrefix s prefix = (length s \<ge> length prefix \<and> take (length prefix) s = prefix)"

definition strings_HasSuffix :: "gostring \<Rightarrow> gostring \<Rightarrow> bool" where
  "strings_HasSuffix s suffix =
     (length s \<ge> length suffix \<and> drop (length s - length suffix) s = suffix)"

definition strings_TrimSuffix :: "gostring \<Rightarrow> gostring \<Rightarrow> gostring" where
  "strings_TrimSuffix s suffix =
     (if strings_HasSuffix s suffix then take (length s - length suffix) s else s)"

fun strings_Index :: "gostring \<Rightarrow> gostring \<Rightarrow> nat option" where
  "strings_Index [] substr = (if substr = [] then Some 0 else None)"
| "strings_Index (c # cs) substr =
     (if strings_HasPrefix (c # cs) substr then Some 0
      else map_option Suc (strings_Index cs substr))"

definition strings_Contains :: "gostring \<Rightarrow> gostring \<Rightarrow> bool" where
  "strings_Contains s substr = (strings_Index s substr \<noteq> None)"

text \<open>
  \<open>strings.Split(s, sep)\<close>: the pieces of \<open>s\<close> between the occurrences of \<open>sep\<close>, found
  from the left, one after the end of the other; with an empty \<open>sep\<close>, one string for each
  rune.  \<open>strings.Join\<close> follows the package's own case split on the number of elements.
  \<open>strings.Map\<close> applies the mapping to each rune (a negative result drops the rune: the
  mapping of this program never returns one).
\<close>

function strings_Split :: "gostring \<Rightarrow> gostring \<Rightarrow> gostring list" where
  "strings_Split s sep =
     (if sep = [] then map (\<lambda>r. [r]) s
      else case strings_Index s sep of
             None \<Rightarrow> [s]
           | Some m \<Rightarrow> take m s # strings_Split (drop (m + length sep) s) sep)"
  by pat_completeness auto
termination
proof (relation "measure (\<lambda>(s, sep). length s)", goal_cases)
  case 1
  show ?case by simp
next
  case (2 s sep m)
  have bound: "strings_Index t sep = Some k \<Longrightarrow> k + length sep \<le> length t" for t k
    by (induction t arbitrary: k) (auto simp: strings_HasPrefix_def split: if_splits)
  from 2 bound [of s m] show ?case by (cases s) auto
qed

declare strings_Split.simps [simp del]

fun strings_Join :: "gostring list \<Rightarrow> gostring \<Rightarrow> gostring" where
  "strings_Join [] sep = []"
| "strings_Join [e] sep = e"
| "strings_Join (e # es) sep = e @ concat (map (\<lambda>s. sep @ s) es)"

definition strings_Map :: "(rune \<Rightarrow> rune) \<Rightarrow> gostring \<Rightarrow> gostring" where
  "strings_Map mapping s = map mapping s"

text \<open>
  \<open>a[i]\<close> on a slice: \<open>None\<close> is the run-time panic "index out of range".
\<close>

definition index :: "'a list \<Rightarrow> int \<Rightarrow> 'a option" where
  "index a i = (if 0 \<le> i \<and> i < int (length a) then Some (a ! nat i) else None)"

section \<open>Unicode\<close>

text \<open>
  \<open>unicode.IsLetter\<close>, \<open>unicode.IsNumber\<close> and \<open>unicode.IsDigit\<close> answer from the
  package's property table for the runes up to \<open>MaxLatin1\<close>, written out here, and from
  its range tables \<open>Letter\<close> (category L), \<open>Number\<close> (category N) and \<open>Digit\<close> (category Nd)
  above: these are parameters.  In Latin-1 the letters are \<open>A-Z\<close>, \<open>a-z\<close>, the ordinal
  indicators \<open>U+00AA\<close> and \<open>U+00BA\<close>, the micro sign \<open>U+00B5\<close> and \<open>U+00C0-U+00FF\<close> without
  the multiplication and division signs; the numbers are \<open>0-9\<close>, the superscripts
  \<open>U+00B2\<close>, \<open>U+00B3\<close>, \<open>U+00B9\<close> and the fractions \<open>U+00BC-U+00BE\<close>; the digits are \<open>0-9\<close>.
  The program calls \<open>IsLetter\<close> and \<open>IsNumber\<close>; \<open>IsDigit\<close> is here for the wording of the
  specification.
\<close>

record unicode_tables =
  Letter :: "rune \<Rightarrow> bool"
  Number :: "rune \<Rightarrow> bool"
  Digit :: "rune \<Rightarrow> bool"

definition MaxLatin1 :: rune where
  "MaxLatin1 = 0xFF"

definition latin1_letter :: "rune \<Rightarrow> bool" where
  "latin1_letter r =
     ((0x41 \<le> r \<and> r \<le> 0x5A) \<or> (0x61 \<le> r \<and> r \<le> 0x7A) \<or> r = 0xAA \<or> r = 0xB5 \<or> r = 0xBA
      \<or> (0xC0 \<le> r \<and> r \<le> 0xD6) \<or> (0xD8 \<le> r \<and> r \<le> 0xF6) \<or> (0xF8 \<le> r \<and> r \<le> 0xFF))"

definition latin1_number :: "rune \<Rightarrow> bool" where
  "latin1_number r =
     ((0x30 \<le> r \<and> r \<le> 0x39) \<or> r = 0xB2 \<or> r = 0xB3 \<or> r = 0xB9 \<or> (0xBC \<le> r \<and> r \<le> 0xBE))"

definition unicode_IsLetter :: "unicode_tables \<Rightarrow> rune \<Rightarrow> bool" where
  "unicode_IsLetter U r = (if r \<le> MaxLatin1 then latin1_letter r else Letter U r)"

definition unicode_IsNumber :: "unicode_tables \<Rightarrow> rune \<Rightarrow> bool" where
  "unicode_IsNumber U r = (if r \<le> MaxLatin1 then latin1_number r else Number U r)"

definition unicode_IsDigit :: "unicode_tables \<Rightarrow> rune \<Rightarrow> bool" where
  "unicode_IsDigit U r = (if r \<le> MaxLatin1 then 0x30 \<le> r \<and> r \<le> 0x39 else Digit U r)"

section \<open>The name sanitizer\<close>

text \<open>
  \<open>sqlNameFromString\<close> (lines 182 to 195 of the source).  The result is an option because
  of the index expression \<open>parts[len(parts)-1]\<close>; \<open>mapStrings\<close> (lines 259 to 265) passes
  a panic of its argument function on.
\<close>

definition sqlNameFromString :: "unicode_tables \<Rightarrow> gostring \<Rightarrow> gostring option" where
  "sqlNameFromString U path =
     (let path1 = strings_TrimSuffix path (lit ''.csv'');
          parts = strings_Split path1 (lit ''/'')
      in case index parts (int (length parts) - 1) of
           None \<Rightarrow> None
         | Some path2 \<Rightarrow>
             Some (strings_Map
                     (\<lambda>r. if unicode_IsLetter U r \<or> unicode_IsNumber U r then r else of_char CHR ''_'')
                     path2))"

fun mapStrings :: "gostring list \<Rightarrow> (gostring \<Rightarrow> gostring option) \<Rightarrow> gostring list option" where
  "mapStrings [] f = Some []"
| "mapStrings (s # ss) f =
     (case f s of
        None \<Rightarrow> None
      | Some y \<Rightarrow> (case mapStrings ss f of None \<Rightarrow> None | Some ys \<Rightarrow> Some (y # ys)))"

text \<open>
  The sanitizer in the words of the specification: strip one trailing \<open>.csv\<close>, take the
  last \<open>/\<close>-separated path segment, replace by an underscore every character that is "not
  a letter or a digit"; and the same with "not a letter or a number".
\<close>

definition strip_extension :: "gostring \<Rightarrow> gostring" where
  "strip_extension s =
     (case rev s of
        v # s' # c # d # base \<Rightarrow>
          if [d, c, s', v] = lit ''.csv'' then rev base else s
      | _ \<Rightarrow> s)"

definition last_segment :: "gostring \<Rightarrow> gostring" where
  "last_segment s = rev (takeWhile (\<lambda>r. r \<noteq> of_char CHR ''/'') (rev s))"

definition underscore_unless :: "(rune \<Rightarrow> bool) \<Rightarrow> gostring \<Rightarrow> gostring" where
  "underscore_unless keep s = map (\<lambda>r. if keep r then r else of_char CHR ''_'') s"

definition sanitized_letter_or_digit :: "unicode_tables \<Rightarrow> gostring \<Rightarrow> gostring" where
  "sanitized_letter_or_digit U s =
     underscore_unless (\<lambda>r. unicode_IsLetter U r \<or> unicode_IsDigit U r)
       (last_segment (strip_extension s))"

definition sanitized_letter_or_number :: "unicode_tables \<Rightarrow> gostring \<Rightarrow> gostring" where
  "sanitized_letter_or_number U s =
     underscore_unless (\<lambda>r. unicode_IsLetter U r \<or> unicode_IsNumber U r)
       (last_segment (strip_extension s))"

text \<open>
  Range tables that hold nothing: with them only Latin-1 has letters and numbers.
\<close>

definition no_table :: "rune \<Rightarrow> bool" where
  "no_table r = False"

definition latin1_only :: unicode_tables where
  "latin1_only = \<lparr>Letter = no_table, Number = no_table, Digit = no_table\<rparr>"


section \<open>The database engine, files and the process state\<close>

text \<open>
  An \<open>error\<close> value is taken to be its message, the string \<open>err.Error()\<close> returns.
  The three statements the ingester builds with \<open>fmt.Sprintf\<close> are kept by their parts
  (table name, column names, arguments) and not as SQL text: the engine of the model is
  handed the parts, and how the real engine reads the text (a table name given with
  \<open>--table\<close> goes into it as it is) is outside the model.  The insert statement has one
  placeholder for each column name (\<open>fieldCount\<close> of them).  An argument of a statement is
  a string or \<open>nil\<close>.
\<close>

type_synonym error = gostring

type_synonym sqlvalue = "gostring option"

datatype stmt =
    DropTableIfExists gostring
  | CreateTable gostring "gostring list"
  | InsertInto gostring "gostring list" "sqlvalue list"

text \<open>
  \<open>sql.NullString\<close>, and a result set as the executor reads it: the column list
  (\<open>rows.Columns\<close>, which may fail) and, for each row \<open>rows.Next\<close> offers, what
  \<open>rows.Scan\<close> fills in or the error it returns.
\<close>

record NullString =
  String :: gostring
  Valid :: bool

record cursor =
  Columns :: "error + gostring list"
  Rows :: "(error + NullString list) list"

text \<open>
  One constructor for each call of \<open>log.Fatalf\<close> and \<open>log.Printf\<close> in the source, in the
  order of the source, with the arguments of its format.
\<close>

datatype logline =
    OpenMemoryError error
  | DbRequiresArgument
  | OpenDatabaseError gostring error
  | TableRequiresArgument
  | UnknownArgument gostring
  | ReadSQLFileError gostring error
  | QueryError gostring error
  | ColumnsError gostring error
  | ScanError error
  | OpenCSVError gostring error
  | ReadCSVError gostring error
  | DropTableError gostring error
  | TableAlreadyExists gostring
  | CreateTableError gostring error
  | InsertError error

text \<open>
  What the program changes: its three package variables, the handle \<open>db\<close> of \<open>main\<close> (the
  name it was opened on), the contents of every database by name, what is left to read on
  standard input (as the outcome of \<open>ReadAll\<close> on it), standard output, what a writer holds
  unflushed when the process exits, and the lines logged.  The type \<open>'db\<close> of the
  contents of a database is the engine's.
\<close>

record 'db state =
  HeadersOn :: bool
  Replacing :: bool
  WritePlainText :: bool
  db :: gostring
  databases :: "gostring \<Rightarrow> 'db"
  stdin :: "error + gostring list list"
  stdout :: gostring
  unflushed :: gostring
  stderr :: "logline list"

text \<open>
  What the program is given: the Unicode tables; \<open>sql.Open\<close> (an error or none);
  \<open>os.Open\<close> for a CSV file, an error or the file, kept as the outcome of
  \<open>csv.Reader.ReadAll\<close> on it with the reader as the ingester configures it;
  \<open>os.ReadFile\<close>; the engine's \<open>Exec\<close> and \<open>Query\<close> (a query may change the database: a
  \<open>.sql\<close> file can hold any statement); and the bytes \<open>csv.Writer.Write\<close> emits for a
  row.
\<close>

record 'db env =
  unicode :: unicode_tables
  sql_Open :: "gostring \<Rightarrow> error option"
  os_Open :: "gostring \<Rightarrow> error + (error + gostring list list)"
  os_ReadFile :: "gostring \<Rightarrow> error + gostring"
  db_Exec :: "'db \<Rightarrow> stmt \<Rightarrow> error + 'db"
  db_Query :: "'db \<Rightarrow> gostring \<Rightarrow> error + ('db \<times> cursor)"
  csv_Write :: "gostring list \<Rightarrow> gostring"

text \<open>
  How a run ends: by returning, by \<open>log.Fatalf\<close> (the line is logged, then \<open>os.Exit(1)\<close>),
  or by a run-time panic (exit status 2), each with the state at that point.
\<close>

datatype 'db outcome = Return "'db state" | Fatal "'db state" | Panic "'db state"

fun exit_status :: "'db outcome \<Rightarrow> nat" where
  "exit_status (Return st) = 0"
| "exit_status (Fatal st) = 1"
| "exit_status (Panic st) = 2"

definition log_Printf :: "'db state \<Rightarrow> logline \<Rightarrow> 'db state" where
  "log_Printf st l = st\<lparr>stderr := stderr st @ [l]\<rparr>"

definition log_Fatalf :: "'db state \<Rightarrow> logline \<Rightarrow> 'db outcome" where
  "log_Fatalf st l = Fatal (log_Printf st l)"

definition Exec :: "'db env \<Rightarrow> 'db state \<Rightarrow> stmt \<Rightarrow> error + 'db state" where
  "Exec env st q =
     (case db_Exec env (databases st (db st)) q of
        Inl err \<Rightarrow> Inl err
      | Inr d \<Rightarrow> Inr (st\<lparr>databases := (databases st)(db st := d)\<rparr>))"

section \<open>The output writers\<close>

text \<open>
  A writer is its buffer: \<open>Write\<close> appends the bytes of a row (lines 147 to 149 and 165
  to 168).  \<open>fmt.Fprintln\<close> of one string writes it and a newline.  \<open>bufio\<close> flushing a
  full buffer on its own is not modelled: the buffer reaches standard output at the
  deferred \<open>Flush\<close>, and stays behind on \<open>log.Fatalf\<close>, which does not run deferred calls.
\<close>

definition PlainTextWriter_Write :: "gostring \<Rightarrow> gostring list \<Rightarrow> gostring" where
  "PlainTextWriter_Write w ss = w @ strings_Join ss [0x09] @ [0x0A]"

definition CSVWriter_Write :: "'db env \<Rightarrow> gostring \<Rightarrow> gostring list \<Rightarrow> gostring" where
  "CSVWriter_Write env w ss = w @ csv_Write env ss"

definition getWriter :: "'db env \<Rightarrow> 'db state \<Rightarrow> gostring \<Rightarrow> gostring list \<Rightarrow> gostring" where
  "getWriter env st = (if WritePlainText st then PlainTextWriter_Write else CSVWriter_Write env)"

definition asStrings :: "NullString list \<Rightarrow> gostring list" where
  "asStrings ss = map String ss"

section \<open>The query executor\<close>

text \<open>
  \<open>readSQLFile\<close> (lines 84 to 90) and \<open>executeQuery\<close> (lines 92 to 125); \<open>scanRows\<close> is the
  loop over \<open>rows.Next()\<close>.
\<close>

definition readSQLFile :: "'db env \<Rightarrow> 'db state \<Rightarrow> gostring \<Rightarrow> 'db outcome + gostring" where
  "readSQLFile env st fileName =
     (case os_ReadFile env fileName of
        Inl err \<Rightarrow> Inl (log_Fatalf st (ReadSQLFileError fileName err))
      | Inr contents \<Rightarrow> Inr contents)"

fun scanRows ::
  "(gostring \<Rightarrow> gostring list \<Rightarrow> gostring) \<Rightarrow> gostring \<Rightarrow> (error + NullString list) list
     \<Rightarrow> gostring \<times> error option" where
  "scanRows write w [] = (w, None)"
| "scanRows write w (r # rs) =
     (case r of
        Inl err \<Rightarrow> (w, Some err)
      | Inr values \<Rightarrow> scanRows write (write w (asStrings values)) rs)"

definition executeQuery :: "'db env \<Rightarrow> 'db state \<Rightarrow> gostring \<Rightarrow> 'db outcome" where
  "executeQuery env st query =
     (case db_Query env (databases st (db st)) query of
        Inl err \<Rightarrow> log_Fatalf st (QueryError query err)
      | Inr (d, rows) \<Rightarrow>
          (let st1 = st\<lparr>databases := (databases st)(db st := d)\<rparr> in
           case Columns rows of
             Inl err \<Rightarrow> log_Fatalf st1 (ColumnsError query err)
           | Inr columns \<Rightarrow>
               (let writer = getWriter env st1;
                    w0 = (if HeadersOn st1 then writer [] columns else [])
                in case scanRows writer w0 (Rows rows) of
                     (w, Some err) \<Rightarrow> log_Fatalf (st1\<lparr>unflushed := w\<rparr>) (ScanError err)
                   | (w, None) \<Rightarrow> Return (st1\<lparr>stdout := stdout st1 @ w\<rparr>))))"

section \<open>The CSV ingester\<close>

text \<open>
  \<open>createTableFromReader\<close> (lines 208 to 257) and \<open>createTableFromCSV\<close> (lines 197 to
  206).  \<open>recordValues\<close> is the body of the loop over the data rows that builds \<open>values\<close>:
  every field of the record, then \<open>padValues\<close>, the loop \<open>for i := len(record); i <
  fieldCount; i++\<close> that appends \<open>nil\<close>.  \<open>insertRecords\<close> is the loop over \<open>records[1:]\<close>.
\<close>

function padValues :: "nat \<Rightarrow> nat \<Rightarrow> sqlvalue list \<Rightarrow> sqlvalue list" where
  "padValues i fieldCount values =
     (if i < fieldCount then padValues (i + 1) fieldCount (values @ [None]) else values)"
  by pat_completeness auto
termination
  by (relation "measure (\<lambda>(i, fieldCount, values). fieldCount - i)") auto

declare padValues.simps [simp del]

definition recordValues :: "nat \<Rightarrow> gostring list \<Rightarrow> sqlvalue list" where
  "recordValues fieldCount record = padValues (length record) fieldCount (map Some record)"

fun insertRecords ::
  "'db env \<Rightarrow> 'db state \<Rightarrow> gostring \<Rightarrow> gostring list \<Rightarrow> nat \<Rightarrow> gostring list list \<Rightarrow> 'db outcome" where
  "insertRecords env st tableName fieldNames fieldCount [] = Return st"
| "insertRecords env st tableName fieldNames fieldCount (record # records) =
     (case Exec env st (InsertInto tableName fieldNames (recordValues fieldCount record)) of
        Inl err \<Rightarrow> log_Fatalf st (InsertError err)
      | Inr st1 \<Rightarrow> insertRecords env st1 tableName fieldNames fieldCount records)"

definition createTableFromReader ::
  "'db env \<Rightarrow> 'db state \<Rightarrow> gostring \<Rightarrow> error + gostring list list \<Rightarrow> gostring \<Rightarrow> 'db outcome" where
  "createTableFromReader env st tableName input fileName =
     (case input of
        Inl err \<Rightarrow> log_Fatalf st (ReadCSVError fileName err)
      | Inr records \<Rightarrow>
          (case index records 0 of
             None \<Rightarrow> Panic st
           | Some header \<Rightarrow>
               (case mapStrings header (sqlNameFromString (unicode env)) of
                  None \<Rightarrow> Panic st
                | Some fieldNames \<Rightarrow>
                    (let fieldCount = length fieldNames in
                     case (if Replacing st then Exec env st (DropTableIfExists tableName) else Inr st) of
                       Inl err \<Rightarrow> log_Fatalf st (DropTableError tableName err)
                     | Inr st1 \<Rightarrow>
                         (case Exec env st1 (CreateTable tableName fieldNames) of
                            Inl err \<Rightarrow>
                              if strings_Contains err (lit ''already exists'')
                              then insertRecords env (log_Printf st1 (TableAlreadyExists tableName))
                                     tableName fieldNames fieldCount (drop 1 records)
                              else log_Fatalf st1 (CreateTableError tableName err)
                          | Inr st2 \<Rightarrow>
                              insertRecords env st2 tableName fieldNames fieldCount (drop 1 records))))))"

definition createTableFromCSV :: "'db env \<Rightarrow> 'db state \<Rightarrow> gostring \<Rightarrow> gostring \<Rightarrow> 'db outcome" where
  "createTableFromCSV env st tableName fileName =
     (case os_Open env fileName of
        Inl err \<Rightarrow> log_Fatalf st (OpenCSVError fileName err)
      | Inr csvFile \<Rightarrow> createTableFromReader env st tableName csvFile fileName)"

section \<open>The argument dispatcher\<close>

text \<open>
  \<open>main\<close> (lines 23 to 82).  \<open>main_loop\<close> is the \<open>for\<close> loop over \<open>os.Args\<close> from index 1,
  with the local variable \<open>tableName\<close> as an argument; the cases of the \<open>switch\<close> are tried
  in the order of the source.  The token \<open>stdin\<close> reads standard input to its end, so
  nothing is left on it afterwards.
\<close>

fun main_loop :: "'db env \<Rightarrow> 'db state \<Rightarrow> gostring \<Rightarrow> gostring list \<Rightarrow> 'db outcome" where
  "main_loop env st tableName [] = Return st"
| "main_loop env st tableName (arg # rest) =
     (if arg = lit ''--plain-text'' \<or> arg = lit ''--plain'' \<or> arg = lit ''--text'' then
        main_loop env (st\<lparr>WritePlainText := True\<rparr>) tableName rest
      else if arg = lit ''--replace'' then
        main_loop env (st\<lparr>Replacing := True\<rparr>) tableName rest
      else if arg = lit ''--db'' then
        (case rest of
           [] \<Rightarrow> log_Fatalf st DbRequiresArgument
         | a # rest' \<Rightarrow>
             (let dbName = (if strings_HasSuffix a (lit ''.db'') then a else a @ lit ''.db'') in
              case sql_Open env dbName of
                Some err \<Rightarrow> log_Fatalf st (OpenDatabaseError a err)
              | None \<Rightarrow> main_loop env (st\<lparr>db := dbName\<rparr>) tableName rest'))
      else if arg = lit ''--table'' then
        (case rest of
           [] \<Rightarrow> log_Fatalf st TableRequiresArgument
         | a # rest' \<Rightarrow> main_loop env st a rest')
      else if arg = lit ''--no-headers'' \<or> arg = lit ''--no-header'' then
        main_loop env (st\<lparr>HeadersOn := False\<rparr>) tableName rest
      else if arg = lit ''--headers'' then
        main_loop env (st\<lparr>HeadersOn := True\<rparr>) tableName rest
      else if strings_HasSuffix arg (lit ''.csv'') then
        (case (if tableName = [] then sqlNameFromString (unicode env) arg else Some tableName) of
           None \<Rightarrow> Panic st
         | Some tableName1 \<Rightarrow>
             (case createTableFromCSV env st tableName1 arg of
                Return st1 \<Rightarrow> main_loop env st1 [] rest
              | Fatal st1 \<Rightarrow> Fatal st1
              | Panic st1 \<Rightarrow> Panic st1))
      else if strings_HasSuffix arg (lit ''.sql'') then
        (case readSQLFile env st arg of
           Inl exit \<Rightarrow> exit
         | Inr query \<Rightarrow>
             (case executeQuery env st query of
                Return st1 \<Rightarrow> main_loop env st1 tableName rest
              | Fatal st1 \<Rightarrow> Fatal st1
              | Panic st1 \<Rightarrow> Panic st1))
      else if arg = lit ''stdin'' then
        (let tableName1 = (if tableName = [] then lit ''stdin'' else tableName) in
         case createTableFromReader env (st\<lparr>stdin := Inr []\<rparr>) tableName1 (stdin st) (lit ''stdin'') of
           Return st1 \<Rightarrow> main_loop env st1 tableName1 rest
         | Fatal st1 \<Rightarrow> Fatal st1
         | Panic st1 \<Rightarrow> Panic st1)
      else if strings_HasPrefix arg (lit ''select'') then
        (case executeQuery env st arg of
           Return st1 \<Rightarrow> main_loop env st1 tableName rest
         | Fatal st1 \<Rightarrow> Fatal st1
         | Panic st1 \<Rightarrow> Panic st1)
      else log_Fatalf st (UnknownArgument arg))"

declare main_loop.simps [simp del]

definition main :: "'db env \<Rightarrow> 'db state \<Rightarrow> gostring list \<Rightarrow> 'db outcome" where
  "main env world os_Args =
     (let st = world\<lparr>HeadersOn := True, Replacing := False, WritePlainText := False\<rparr> in
      case sql_Open env (lit ''file::memory:'') of
        Some err \<Rightarrow> log_Fatalf st (OpenMemoryError err)
      | None \<Rightarrow> main_loop env (st\<lparr>db := lit ''file::memory:''\<rparr>) [] (drop 1 os_Args))"


section \<open>A model of the SQL engine\<close>

text \<open>
  SQLite is not part of the repository.  This model of it covers the three statements of
  the ingester on a database that maps table names to tables, a table being its column
  names and its rows, each row one value for each column:
  \<^item> \<open>drop table if exists\<close> removes the table, if there is one;
  \<open>create table\<close> fails with "table ... already exists" when there is one, and makes an
  empty table otherwise; \<open>insert\<close> fails when the table or one of the named columns is
  missing, and otherwise appends a row that holds, for each column of the table, the
  argument bound to it, or null;
  \<^item> whatever else makes the engine or its driver reject a statement (its syntax, a bad,
  reserved or repeated name, the number of arguments) is the parameter \<open>vet\<close>, asked first,
  which judges the statement alone and gives the message;
  \<^item> names are compared as they are (SQLite ignores the case of ASCII letters), tables
  carry neither column types nor constraints, and failures that depend on more than the
  tables (a full disk, a locked file) do not occur.

  \<open>plain_rejections\<close> says that no message of \<open>vet\<close> holds the words "already exists",
  the words the ingester looks for.  \<open>reserved_names\<close> is a \<open>vet\<close> that does not satisfy it,
  and one rejection of SQLite itself: a table whose name, the double quotes around it
  taken off (\<open>unquoted\<close>), starts with \<open>sqlite_\<close> cannot be created, and the message ends with
  that name.  \<open>record_Exec\<close> is another engine altogether: it accepts every statement and
  keeps the list of them.
\<close>

record table =
  columns :: "gostring list"
  rows :: "sqlvalue list list"

type_synonym database = "gostring \<Rightarrow> table option"

definition bind_row :: "gostring list \<Rightarrow> sqlvalue list \<Rightarrow> gostring list \<Rightarrow> sqlvalue list" where
  "bind_row cols args tcols =
     map (\<lambda>c. case map_of (zip cols args) c of None \<Rightarrow> None | Some v \<Rightarrow> v) tcols"

definition table_exists_error :: "gostring \<Rightarrow> error" where
  "table_exists_error t = lit ''table '' @ t @ lit '' already exists''"

definition sqlite_Exec :: "(stmt \<Rightarrow> error option) \<Rightarrow> database \<Rightarrow> stmt \<Rightarrow> error + database" where
  "sqlite_Exec vet d q =
     (case vet q of
        Some msg \<Rightarrow> Inl msg
      | None \<Rightarrow>
          (case q of
             DropTableIfExists t \<Rightarrow> Inr (d(t := None))
           | CreateTable t cols \<Rightarrow>
               (case d t of
                  Some T \<Rightarrow> Inl (table_exists_error t)
                | None \<Rightarrow> Inr (d(t \<mapsto> \<lparr>columns = cols, rows = []\<rparr>)))
           | InsertInto t cols args \<Rightarrow>
               (case d t of
                  None \<Rightarrow> Inl (lit ''no such table: '' @ t)
                | Some T \<Rightarrow>
                    (case find (\<lambda>c. c \<notin> set (columns T)) cols of
                       Some c \<Rightarrow> Inl (lit ''table '' @ t @ lit '' has no column named '' @ c)
                     | None \<Rightarrow>
                         Inr (d(t \<mapsto> T\<lparr>rows := rows T @ [bind_row cols args (columns T)]\<rparr>))))))"

definition plain_rejections :: "(stmt \<Rightarrow> error option) \<Rightarrow> bool" where
  "plain_rejections vet =
     (\<forall>q msg. vet q = Some msg \<longrightarrow> \<not> strings_Contains msg (lit ''already exists''))"



definition record_Exec :: "stmt list \<Rightarrow> stmt \<Rightarrow> error + stmt list" where
  "record_Exec d q = Inr (d @ [q])"

section \<open>The behaviour as the specification words it\<close>

text \<open>
  \<open>tab_separated\<close>: the fields of a row with a single tab between neighbours.
  \<open>scanned\<close> and \<open>scan_error\<close>: the rows of a cursor before the first one that fails to
  scan, and that failure.  \<open>matches_no_rule\<close>: a token that is no flag, does not end in
  \<open>.csv\<close> or \<open>.sql\<close>, is not \<open>stdin\<close> and does not start with \<open>select\<close>.

  \<open>ingest_as_specified\<close> is the failure policy of the ingester in the words of the
  specification: every error is fatal (\<open>run_fatal\<close> runs statements until one fails, logs
  the line for it and exits), except that, when not in replace mode, the error
  "table already exists" of the create statement is logged as a warning and the rows are
  then inserted into the existing table.

  \<open>ingest_downgrading\<close> is that policy with a wider exception: in replace mode or not, an
  error of the create statement whose message holds the words "already exists" is logged
  as the warning, and the inserts follow.  \<open>holds_words\<close> says that a message holds some
  words: they are what stands at one of its positions.
\<close>

fun tab_separated :: "gostring list \<Rightarrow> gostring" where
  "tab_separated [] = []"
| "tab_separated [f] = f"
| "tab_separated (f # g # fs) = f @ [0x09] @ tab_separated (g # fs)"

fun scanned :: "(error + 'a) list \<Rightarrow> 'a list" where
  "scanned [] = []"
| "scanned (Inl err # rs) = []"
| "scanned (Inr values # rs) = values # scanned rs"

fun scan_error :: "(error + 'a) list \<Rightarrow> error option" where
  "scan_error [] = None"
| "scan_error (Inl err # rs) = Some err"
| "scan_error (Inr values # rs) = scan_error rs"

definition matches_no_rule :: "gostring \<Rightarrow> bool" where
  "matches_no_rule arg =
     (arg \<notin> set (map lit [''--plain-text'', ''--plain'', ''--text'', ''--replace'', ''--db'',
                          ''--table'', ''--no-headers'', ''--no-header'', ''--headers''])
      \<and> \<not> strings_HasSuffix arg (lit ''.csv'') \<and> \<not> strings_HasSuffix arg (lit ''.sql'')
      \<and> arg \<noteq> lit ''stdin'' \<and> \<not> strings_HasPrefix arg (lit ''select''))"

fun run_fatal :: "'db env \<Rightarrow> 'db state \<Rightarrow> (stmt \<times> (error \<Rightarrow> logline)) list \<Rightarrow> 'db outcome" where
  "run_fatal env st [] = Return st"
| "run_fatal env st ((q, line) # qs) =
     (case Exec env st q of
        Inl err \<Rightarrow> log_Fatalf st (line err)
      | Inr st1 \<Rightarrow> run_fatal env st1 qs)"

definition ingest_as_specified ::
  "database env \<Rightarrow> database state \<Rightarrow> gostring \<Rightarrow> error + gostring list list \<Rightarrow> gostring
     \<Rightarrow> database outcome" where
  "ingest_as_specified env st tableName input fileName =
     (case input of
        Inl err \<Rightarrow> log_Fatalf st (ReadCSVError fileName err)
      | Inr records \<Rightarrow>
          (let fieldNames = map (sanitized_letter_or_number (unicode env)) (hd records);
               inserts = map (\<lambda>r. (InsertInto tableName fieldNames
                                      (recordValues (length fieldNames) r), InsertError))
                           (tl records)
           in if Replacing st then
                run_fatal env st
                  ((DropTableIfExists tableName, DropTableError tableName)
                   # (CreateTable tableName fieldNames, CreateTableError tableName) # inserts)
              else (case Exec env st (CreateTable tableName fieldNames) of
                      Inr st1 \<Rightarrow> run_fatal env st1 inserts
                    | Inl err \<Rightarrow>
                        if err = table_exists_error tableName
                        then run_fatal env (log_Printf st (TableAlreadyExists tableName)) inserts
                        else log_Fatalf st (CreateTableError tableName err))))"




definition ingest_file_as_specified ::
  "database env \<Rightarrow> database state \<Rightarrow> gostring \<Rightarrow> gostring \<Rightarrow> database outcome" where
  "ingest_file_as_specified env st tableName fileName =
     (case os_Open env fileName of
        Inl err \<Rightarrow> log_Fatalf st (OpenCSVError fileName err)
      | Inr input \<Rightarrow> ingest_as_specified env st tableName input fileName)"

section \<open>A small world to run the program in\<close>

text \<open>
  For the examples: an engine that vets nothing; a query function that knows the one
  query \<open>select * from\<close> a table; a CSV layout for fields that need no quoting (commas
  between, a newline after); one file \<open>x.csv\<close> with the header \<open>a,b\<close> and the short row
  \<open>5\<close>; three lines on standard input; and, for the recording engine, empty lists of
  statements.  \<open>reserved_env\<close> is the same world with the engine that rejects reserved
  names, \<open>reserved_name\<close> the quoted name \<open>"sqlite_already exists"\<close>, and \<open>syntax_error\<close> a
  \<open>vet\<close> that rejects every create statement with a message that lacks the words
  (\<open>syntax_env\<close> is the world with it).
\<close>

definition comma_line :: "gostring list \<Rightarrow> gostring" where
  "comma_line ss = strings_Join ss (lit '','') @ [0x0A]"

definition nullString :: "sqlvalue \<Rightarrow> NullString" where
  "nullString v = (case v of None \<Rightarrow> \<lparr>String = [], Valid = False\<rparr> | Some s \<Rightarrow> \<lparr>String = s, Valid = True\<rparr>)"

definition select_star :: "database \<Rightarrow> gostring \<Rightarrow> error + (database \<times> cursor)" where
  "select_star d query =
     (if strings_HasPrefix query (lit ''select * from '') then
        (case d (drop 14 query) of
           None \<Rightarrow> Inl (lit ''no such table: '' @ drop 14 query)
         | Some T \<Rightarrow>
             Inr (d, \<lparr>Columns = Inr (columns T),
                      Rows = map (\<lambda>r. Inr (map nullString r)) (rows T)\<rparr>))
      else Inl (lit ''not a query of this model''))"

definition accept_all :: "stmt \<Rightarrow> error option" where
  "accept_all q = None"

definition example_files :: "gostring \<Rightarrow> error + (error + gostring list list)" where
  "example_files name =
     (if name = lit ''x.csv'' then Inr (Inr [[lit ''a'', lit ''b''], [lit ''5'']])
      else Inl (lit ''no such file or directory''))"

definition no_files :: "gostring \<Rightarrow> error + gostring" where
  "no_files name = Inl (lit ''no such file or directory'')"

definition always_opens :: "gostring \<Rightarrow> error option" where
  "always_opens name = None"

definition example_env :: "database env" where
  "example_env =
     \<lparr>unicode = latin1_only, sql_Open = always_opens, os_Open = example_files,
      os_ReadFile = no_files, db_Exec = sqlite_Exec accept_all, db_Query = select_star,
      csv_Write = comma_line\<rparr>"





definition no_tables :: "gostring \<Rightarrow> database" where
  "no_tables name = Map.empty"

definition example_world :: "database state" where
  "example_world =
     \<lparr>HeadersOn = True, Replacing = False, WritePlainText = False, db = [],
      databases = no_tables,
      stdin = Inr [[lit ''a'', lit ''b''], [lit ''1'', lit ''2''], [lit ''3'', lit ''4'']],
      stdout = [], unflushed = [], stderr = []\<rparr>"

definition no_statements :: "gostring \<Rightarrow> stmt list" where
  "no_statements name = []"

definition no_query :: "stmt list \<Rightarrow> gostring \<Rightarrow> error + (stmt list \<times> cursor)" where
  "no_query d query = Inl (lit ''not a query of this model'')"

definition recording_env :: "stmt list env" where
  "recording_env =
     \<lparr>unicode = latin1_only, sql_Open = always_opens, os_Open = example_files,
      os_ReadFile = no_files, db_Exec = record_Exec, db_Query = no_query,
      csv_Write = comma_line\<rparr>"

definition recording_world :: "stmt list state" where
  "recording_world =
     \<lparr>HeadersOn = True, Replacing = False, WritePlainText = False, db = [],
      databases = no_statements, stdin = Inr [], stdout = [], unflushed = [], stderr = []\<rparr>"

section \<open>Properties of the name sanitizer\<close>


lemma Index_single:
  "strings_Index s [c] = (if c \<in> set s then Some (length (takeWhile (\<lambda>r. r \<noteq> c) s)) else None)"
  by (induction s) (auto simp: strings_HasPrefix_def)

lemma Split_single_nonempty: "strings_Split s [c] \<noteq> []"
  by (subst strings_Split.simps) (simp split: option.split)

lemma last_segment_absent:
  assumes "c \<notin> set s"
  shows "rev (takeWhile (\<lambda>r. r \<noteq> c) (rev s)) = s"
proof -
  have "takeWhile (\<lambda>r. r \<noteq> c) (rev s) = rev s"
    using assms by (auto simp: takeWhile_eq_all_conv)
  then show ?thesis by (simp only: rev_rev_ident)
qed

lemma last_segment_drop:
  assumes "c \<in> set s"
  shows "rev (takeWhile (\<lambda>r. r \<noteq> c) (rev s)) =
         rev (takeWhile (\<lambda>r. r \<noteq> c) (rev (drop (Suc (length (takeWhile (\<lambda>r. r \<noteq> c) s))) s)))"
proof -
  from assms obtain p t where s: "s = p @ c # t" and p: "c \<notin> set p"
    by (auto dest: split_list_first)
  have tw: "takeWhile (\<lambda>r. r \<noteq> c) (p @ c # t) = p"
    using p by (induction p) auto
  have "takeWhile (\<lambda>r. r \<noteq> c) (rev (p @ c # t)) = takeWhile (\<lambda>r. r \<noteq> c) (rev t)"
    by (simp add: takeWhile_tail)
  then show ?thesis unfolding s tw by simp
qed

lemma Split_single_last: "last (strings_Split s [c]) = rev (takeWhile (\<lambda>r. r \<noteq> c) (rev s))"
proof (induction s "[c]" rule: strings_Split.induct)
  case (1 s)
  show ?case
  proof (cases "c \<in> set s")
    case False
    then show ?thesis
      by (subst strings_Split.simps) (simp add: Index_single last_segment_absent)
  next
    case True
    let ?m = "length (takeWhile (\<lambda>r. r \<noteq> c) s)"
    have ix: "strings_Index s [c] = Some ?m" using True by (simp add: Index_single)
    have "last (strings_Split s [c]) = last (strings_Split (drop (?m + 1) s) [c])"
      by (subst strings_Split.simps) (simp add: ix Split_single_nonempty)
    also have "\<dots> = rev (takeWhile (\<lambda>r. r \<noteq> c) (rev (drop (?m + 1) s)))"
      using "1" [OF _ ix] by simp
    also have "\<dots> = rev (takeWhile (\<lambda>r. r \<noteq> c) (rev s))"
      using last_segment_drop [OF True] by simp
    finally show ?thesis .
  qed
qed

lemma index_last: "index a (int (length a) - 1) = (if a = [] then None else Some (last a))"
  by (cases a rule: rev_cases) (auto simp: index_def nth_append)


lemma HasSuffix_iff: "strings_HasSuffix s suf \<longleftrightarrow> (\<exists>b. s = b @ suf)"
proof
  assume "strings_HasSuffix s suf"
  then have "drop (length s - length suf) s = suf"
    by (simp add: strings_HasSuffix_def)
  then have "s = take (length s - length suf) s @ suf"
    by (metis append_take_drop_id)
  then show "\<exists>b. s = b @ suf" ..
next
  assume "\<exists>b. s = b @ suf"
  then show "strings_HasSuffix s suf" by (auto simp: strings_HasSuffix_def)
qed

lemma TrimSuffix_append: "strings_TrimSuffix (b @ suf) suf = b"
  by (simp add: strings_TrimSuffix_def strings_HasSuffix_def)

lemma strip_extension_append: "strip_extension (b @ lit ''.csv'') = b"
  by (simp add: strip_extension_def lit_def)

lemma strip_extension_other:
  assumes "\<not> (\<exists>b. s = b @ lit ''.csv'')"
  shows "strip_extension s = s"
proof -
  have "[d, c, s', v] \<noteq> lit ''.csv''" if rs: "rev s = v # s' # c # d # base" for v s' c d base
  proof
    assume e: "[d, c, s', v] = lit ''.csv''"
    have "rev (rev s) = rev base @ [d, c, s', v]" by (simp only: rs) simp
    then have "s = rev base @ lit ''.csv''" by (simp only: rev_rev_ident e)
    with assms show False by blast
  qed
  then show ?thesis
    by (simp add: strip_extension_def split: list.split)
qed

lemma TrimSuffix_csv: "strings_TrimSuffix s (lit ''.csv'') = strip_extension s"
proof (cases "\<exists>b. s = b @ lit ''.csv''")
  case True
  then obtain b where "s = b @ lit ''.csv''" ..
  then show ?thesis by (simp only: TrimSuffix_append strip_extension_append)
next
  case False
  then have "\<not> strings_HasSuffix s (lit ''.csv'')" by (simp only: HasSuffix_iff not_False_eq_True)
  with False show ?thesis by (simp add: strings_TrimSuffix_def strip_extension_other)
qed

lemma sqlNameFromString_eq:
  "sqlNameFromString U s = Some (sanitized_letter_or_number U s)"
proof -
  have sl: "lit ''/'' = [of_char CHR ''/'']" by (simp add: lit_def)
  show ?thesis
    unfolding sqlNameFromString_def sanitized_letter_or_number_def Let_def
    by (simp add: index_last sl Split_single_nonempty Split_single_last TrimSuffix_csv
        last_segment_def underscore_unless_def strings_Map_def del: of_char_Char)
qed


lemma kept_or_underscore:
  "r \<in> set (underscore_unless keep s) \<Longrightarrow> keep r \<or> r = of_char CHR ''_''"
  by (auto simp: underscore_unless_def)

lemma sanitized_runes:
  assumes "r \<in> set (sanitized_letter_or_number U s)"
  shows "r \<noteq> of_char CHR ''.''" and "r \<noteq> of_char CHR ''/''"
    and "(unicode_IsLetter U r \<or> unicode_IsNumber U r) \<or> r = of_char CHR ''_''"
proof -
  from assms show k: "(unicode_IsLetter U r \<or> unicode_IsNumber U r) \<or> r = of_char CHR ''_''"
    unfolding sanitized_letter_or_number_def by (rule kept_or_underscore)
  from k show "r \<noteq> of_char CHR ''.''"
    by (auto simp: unicode_IsLetter_def unicode_IsNumber_def MaxLatin1_def latin1_letter_def latin1_number_def)
  from k show "r \<noteq> of_char CHR ''/''"
    by (auto simp: unicode_IsLetter_def unicode_IsNumber_def MaxLatin1_def latin1_letter_def latin1_number_def)
qed

lemma strip_extension_no_dot:
  assumes "of_char CHR ''.'' \<notin> set t"
  shows "strip_extension t = t"
proof (rule strip_extension_other)
  show "\<not> (\<exists>b. t = b @ lit ''.csv'')"
  proof
    assume "\<exists>b. t = b @ lit ''.csv''"
    then obtain b where "t = b @ lit ''.csv''" ..
    then have "of_char CHR ''.'' \<in> set t" by (simp add: lit_def)
    with assms show False by simp
  qed
qed

lemma sanitized_idem:
  "sanitized_letter_or_number U (sanitized_letter_or_number U s) = sanitized_letter_or_number U s"
proof -
  let ?t = "sanitized_letter_or_number U s"
  have dot: "of_char CHR ''.'' \<notin> set ?t" and slash: "of_char CHR ''/'' \<notin> set ?t"
    using sanitized_runes(1,2) [of _ U s] by blast+
  have 1: "strip_extension ?t = ?t" using dot by (rule strip_extension_no_dot)
  have 2: "last_segment ?t = ?t"
    unfolding last_segment_def using slash by (rule last_segment_absent)
  have 3: "underscore_unless (\<lambda>r. unicode_IsLetter U r \<or> unicode_IsNumber U r) ?t = ?t"
    unfolding underscore_unless_def
    by (rule map_idI) (use sanitized_runes(3) [of _ U s] in auto)
  show ?thesis
    by (subst (1) sanitized_letter_or_number_def) (simp only: 1 2 3)
qed


text \<open>
  Claim C4, as amended.  For every input string the sanitizer returns, without a panic,
  the result of stripping one trailing \<open>.csv\<close>, taking the last \<open>/\<close>-separated segment
  and replacing by an underscore every rune that is neither a letter nor a number
  (\<open>unicode.IsNumber\<close>: the decimal digits and the other numeric characters).
\<close>

theorem C4_sanitizer_letter_or_number:
  "sqlNameFromString U s = Some (sanitized_letter_or_number U s)"
  by (rule sqlNameFromString_eq)

text \<open>
  Claim C4 as it is stated, with "digit", fails on the one-rune string U+00BD (vulgar
  fraction one half): it is neither a letter nor a digit, and the sanitizer keeps it.
\<close>

theorem C4_one_half_is_kept:
  "sqlNameFromString latin1_only [0xBD] \<noteq> Some (sanitized_letter_or_digit latin1_only [0xBD])"
  by code_simp

text \<open>
  Claim C5.  The sanitizer is idempotent: on every string it returns a name, and on that
  name it returns the same name.
\<close>

theorem C5_sanitizer_idempotent:
  "\<exists>t. sqlNameFromString U s = Some t \<and> sqlNameFromString U t = Some t"
  by (simp add: sqlNameFromString_eq sanitized_idem)


section \<open>Properties of the output writers and of the query executor\<close>

lemma strings_Join_Cons: "strings_Join (e # es) sep = e @ concat (map (\<lambda>s. sep @ s) es)"
  by (cases es) simp_all

lemma tab_separated_Cons: "tab_separated (f # fs) = f @ concat (map (\<lambda>s. 0x09 # s) fs)"
  by (induction fs arbitrary: f) simp_all

lemma strings_Join_tab: "strings_Join ss [0x09] = tab_separated ss"
  by (cases ss) (simp_all add: strings_Join_Cons tab_separated_Cons)

text \<open>
  Claim C8.  In plain-text mode the writer that \<open>getWriter\<close> hands out appends to the
  output exactly the fields of the row, a single tab between neighbours, and a newline;
  the fields are arbitrary strings and appear as they are.
\<close>

theorem C8_plain_text_row:
  "getWriter env (st\<lparr>WritePlainText := True\<rparr>) w ss = w @ tab_separated ss @ [0x0A]
   \<and> PlainTextWriter_Write w ss = w @ tab_separated ss @ [0x0A]"
  by (simp add: getWriter_def PlainTextWriter_Write_def strings_Join_tab)

lemma getWriter_append: "getWriter env st w ss = w @ getWriter env st [] ss"
  by (simp add: getWriter_def PlainTextWriter_Write_def CSVWriter_Write_def)

lemma scanRows_eq:
  assumes "\<And>w ss. write w ss = w @ write [] ss"
  shows "scanRows write w rs =
           (w @ concat (map (write []) (map asStrings (scanned rs))), scan_error rs)"
proof (induction rs arbitrary: w)
  case Nil
  show ?case by simp
next
  case (Cons r rs)
  show ?case
  proof (cases r)
    case (Inl err)
    then show ?thesis by simp
  next
    case (Inr vs)
    then show ?thesis
      by (simp add: Cons.IH) (subst assms, simp)
  qed
qed

lemma main_loop_no_headers:
  "main_loop env st tableName (lit ''--no-headers'' # rest)
     = main_loop env (st\<lparr>HeadersOn := False\<rparr>) tableName rest"
  by (subst main_loop.simps) (simp add: lit_def)

text \<open>
  Claim C7.  When the query and its column list are obtained, the rows handed to the
  writer are the column names first, if header emission is on, and then the data rows in
  cursor order (up to the first row that fails to scan, where the process exits); with
  header emission off the first row written is the first data row.  The token
  \<open>--no-headers\<close> switches header emission off for the tokens after it.
\<close>

theorem C7_header_row:
  assumes "db_Query env (databases st (db st)) query = Inr (d, cur)"
    and "Columns cur = Inr cols"
  shows "executeQuery env st query =
           (let st1 = st\<lparr>databases := (databases st)(db st := d)\<rparr>;
                written = (if HeadersOn st then [cols] else [])
                            @ map asStrings (scanned (Rows cur));
                out = concat (map (getWriter env st []) written)
            in case scan_error (Rows cur) of
                 None \<Rightarrow> Return (st1\<lparr>stdout := stdout st @ out\<rparr>)
               | Some err \<Rightarrow> log_Fatalf (st1\<lparr>unflushed := out\<rparr>) (ScanError err))
         \<and> main_loop env st tableName (lit ''--no-headers'' # rest)
             = main_loop env (st\<lparr>HeadersOn := False\<rparr>) tableName rest"
proof -
  let ?st1 = "st\<lparr>databases := (databases st)(db st := d)\<rparr>"
  have w: "getWriter env ?st1 = getWriter env st"
    by (simp add: getWriter_def)
  have s: "scanRows (getWriter env st) w0 (Rows cur) =
             (w0 @ concat (map (getWriter env st []) (map asStrings (scanned (Rows cur)))),
              scan_error (Rows cur))" for w0
    by (rule scanRows_eq) (rule getWriter_append)
  have "executeQuery env st query =
           (let st1 = st\<lparr>databases := (databases st)(db st := d)\<rparr>;
                written = (if HeadersOn st then [cols] else [])
                            @ map asStrings (scanned (Rows cur));
                out = concat (map (getWriter env st []) written)
            in case scan_error (Rows cur) of
                 None \<Rightarrow> Return (st1\<lparr>stdout := stdout st @ out\<rparr>)
               | Some err \<Rightarrow> log_Fatalf (st1\<lparr>unflushed := out\<rparr>) (ScanError err))"
    unfolding executeQuery_def Let_def
    by (simp add: assms w s split: option.split)
  then show ?thesis by (simp only: main_loop_no_headers simp_thms)
qed

theorem C7_header_row_witness:
  "executeQuery example_env
       (example_world\<lparr>databases := no_tables([] := [lit ''t'' \<mapsto> \<lparr>columns = [lit ''a''], rows = [[Some (lit ''1'')], [None]]\<rparr>])\<rparr>)
       (lit ''select * from t'')
     = Return (example_world\<lparr>databases := no_tables([] := [lit ''t'' \<mapsto> \<lparr>columns = [lit ''a''], rows = [[Some (lit ''1'')], [None]]\<rparr>]),
                              stdout := lit ''a'' @ [0x0A] @ lit ''1'' @ [0x0A] @ [0x0A]\<rparr>)
   \<and> executeQuery example_env
       (example_world\<lparr>HeadersOn := False, databases := no_tables([] := [lit ''t'' \<mapsto> \<lparr>columns = [lit ''a''], rows = [[Some (lit ''1'')], [None]]\<rparr>])\<rparr>)
       (lit ''select * from t'')
     = Return (example_world\<lparr>HeadersOn := False, databases := no_tables([] := [lit ''t'' \<mapsto> \<lparr>columns = [lit ''a''], rows = [[Some (lit ''1'')], [None]]\<rparr>]),
                              stdout := lit ''1'' @ [0x0A] @ [0x0A]\<rparr>)"
proof -
  let ?T = "\<lparr>columns = [lit ''a''], rows = [[Some (lit ''1'')], [None]]\<rparr>"
  let ?d = "[lit ''t'' \<mapsto> ?T]"
  let ?cur = "\<lparr>Columns = Inr [lit ''a''],
               Rows = [Inr [\<lparr>String = lit ''1'', Valid = True\<rparr>], Inr [\<lparr>String = [], Valid = False\<rparr>]]\<rparr>"
  let ?on = "example_world\<lparr>databases := no_tables([] := ?d)\<rparr>"
  let ?off = "example_world\<lparr>HeadersOn := False, databases := no_tables([] := ?d)\<rparr>"
  have on: "db_Query example_env (databases ?on (db ?on)) (lit ''select * from t'') = Inr (?d, ?cur)"
    by (simp add: example_env_def example_world_def select_star_def strings_HasPrefix_def
        lit_def nullString_def)
  have off: "db_Query example_env (databases ?off (db ?off)) (lit ''select * from t'') = Inr (?d, ?cur)"
    by (simp add: example_env_def example_world_def select_star_def strings_HasPrefix_def
        lit_def nullString_def)
  have c: "Columns ?cur = Inr [lit ''a'']" by simp
  show ?thesis
    using C7_header_row [OF on c] C7_header_row [OF off c]
    by (simp add: example_world_def example_env_def getWriter_def CSVWriter_Write_def
        comma_line_def asStrings_def lit_def)
qed


section \<open>Properties of the CSV ingester\<close>

lemma mapStrings_sanitize:
  "mapStrings header (sqlNameFromString U) = Some (map (sanitized_letter_or_number U) header)"
  by (induction header) (simp_all add: sqlNameFromString_eq)

lemma padValues_eq: "padValues i n vs = vs @ replicate (n - i) None"
proof (induction i n vs rule: padValues.induct)
  case (1 i n vs)
  show ?case
  proof (cases "i < n")
    case True
    then have "n - i = Suc (n - (i + 1))" by simp
    with True "1" show ?thesis
      by (subst padValues.simps) (simp add: replicate_app_Cons_same)
  next
    case False
    then show ?thesis by (subst padValues.simps) simp
  qed
qed

lemma recordValues_eq: "recordValues n r = map Some r @ replicate (n - length r) None"
  by (simp add: recordValues_def padValues_eq)

lemma insertRecords_no_panic: "insertRecords env st t fns n rs \<noteq> Panic st'"
  by (induction rs arbitrary: st) (simp_all add: log_Fatalf_def split: sum.split)

lemma createTableFromReader_Cons:
  "createTableFromReader env st t (Inr (header # rs)) f =
     (let fieldNames = map (sanitized_letter_or_number (unicode env)) header in
      case (if Replacing st then Exec env st (DropTableIfExists t) else Inr st) of
        Inl err \<Rightarrow> log_Fatalf st (DropTableError t err)
      | Inr st1 \<Rightarrow>
          (case Exec env st1 (CreateTable t fieldNames) of
             Inl err \<Rightarrow>
               if strings_Contains err (lit ''already exists'')
               then insertRecords env (log_Printf st1 (TableAlreadyExists t)) t fieldNames
                      (length header) rs
               else log_Fatalf st1 (CreateTableError t err)
           | Inr st2 \<Rightarrow> insertRecords env st2 t fieldNames (length header) rs))"
  by (simp add: createTableFromReader_def index_def mapStrings_sanitize Let_def
      cong: sum.case_cong if_cong)

lemma main_loop_stdin:
  "main_loop env st tableName (lit ''stdin'' # rest) =
     (let tableName1 = (if tableName = [] then lit ''stdin'' else tableName) in
      case createTableFromReader env (st\<lparr>stdin := Inr []\<rparr>) tableName1 (stdin st) (lit ''stdin'') of
        Return st1 \<Rightarrow> main_loop env st1 tableName1 rest
      | Fatal st1 \<Rightarrow> Fatal st1
      | Panic st1 \<Rightarrow> Panic st1)"
  by (subst main_loop.simps) (simp add: lit_def strings_HasSuffix_def)

text \<open>
  Claim C10.  The ingester indexes the first record without a check: it panics exactly
  when the source parses to no record at all, leaving the state as it was (nothing is
  logged by the program: this is not the path of \<open>log.Fatalf\<close>).  So the token \<open>stdin\<close> on
  an empty standard input ends the process with the status of a panic.
\<close>

theorem C10_empty_source_panics:
  "(createTableFromReader env st t (Inr records) f = Panic st') = (records = [] \<and> st' = st)
   \<and> (stdin st = Inr [] \<longrightarrow>
        main_loop env st tableName (lit ''stdin'' # rest) = Panic (st\<lparr>stdin := Inr []\<rparr>)
        \<and> exit_status (main_loop env st tableName (lit ''stdin'' # rest)) = 2)"
proof -
  have empty: "createTableFromReader env s t' (Inr []) f' = Panic s" for s t' f'
    by (simp add: createTableFromReader_def index_def)
  have "createTableFromReader env st t (Inr (header # rs)) f \<noteq> Panic st'" for header rs
    by (simp add: createTableFromReader_Cons Let_def insertRecords_no_panic log_Fatalf_def
        split: sum.split)
  with empty [of st t f] have 1:
    "(createTableFromReader env st t (Inr records) f = Panic st') = (records = [] \<and> st' = st)"
    by (cases records) auto
  have 2: "main_loop env st tableName (lit ''stdin'' # rest) = Panic (st\<lparr>stdin := Inr []\<rparr>)"
    if "stdin st = Inr []"
    by (simp add: main_loop_stdin that empty Let_def)
  from 1 2 show ?thesis by simp
qed

theorem C10_empty_source_panics_witness:
  "stdin (example_world\<lparr>stdin := Inr []\<rparr>) = Inr []
   \<and> main_loop example_env (example_world\<lparr>stdin := Inr []\<rparr>) [] [lit ''stdin'']
       = Panic (example_world\<lparr>stdin := Inr []\<rparr>)
   \<and> exit_status (main_loop example_env (example_world\<lparr>stdin := Inr []\<rparr>) [] [lit ''stdin'']) = 2"
  using C10_empty_source_panics [of example_env "example_world\<lparr>stdin := Inr []\<rparr>" "[]" "[]" "[]"
      "example_world" "[]" "[]"]
  by simp

lemma Exec_record:
  assumes "db_Exec env = record_Exec"
  shows "Exec env st q = Inr (st\<lparr>databases := (databases st)(db st := databases st (db st) @ [q])\<rparr>)"
  by (simp add: Exec_def assms record_Exec_def)

lemma insertRecords_record:
  assumes "db_Exec env = record_Exec"
  shows "insertRecords env st t fns n rs =
           Return (st\<lparr>databases := (databases st)
                      (db st := databases st (db st) @ map (\<lambda>r. InsertInto t fns (recordValues n r)) rs)\<rparr>)"
  by (induction rs arbitrary: st) (simp_all add: Exec_record [OF assms])

lemma createTableFromReader_record:
  assumes "db_Exec env = record_Exec"
  shows "createTableFromReader env st t (Inr (header # rs)) f =
           Return (st\<lparr>databases := (databases st)
                      (db st := databases st (db st)
                         @ (if Replacing st then [DropTableIfExists t] else [])
                         @ [CreateTable t (map (sanitized_letter_or_number (unicode env)) header)]
                         @ map (\<lambda>r. InsertInto t (map (sanitized_letter_or_number (unicode env)) header)
                                      (recordValues (length header) r)) rs)\<rparr>)"
  by (simp add: createTableFromReader_Cons Let_def Exec_record [OF assms]
      insertRecords_record [OF assms])


section \<open>Ingestion against the model of the SQL engine\<close>

lemma strings_Index_prefix: "strings_HasPrefix s p \<Longrightarrow> strings_Index s p = Some 0"
  by (cases s) (simp_all add: strings_HasPrefix_def)

lemma strings_Contains_append: "strings_Contains (xs @ p @ ys) p"
proof (induction xs)
  case Nil
  have "strings_HasPrefix (p @ ys) p" by (simp add: strings_HasPrefix_def)
  then show ?case by (simp add: strings_Contains_def strings_Index_prefix)
next
  case (Cons x xs)
  then show ?case by (auto simp: strings_Contains_def)
qed

lemma table_exists_error_contains:
  "strings_Contains (table_exists_error t) (lit ''already exists'')"
proof -
  have "table_exists_error t = (lit ''table '' @ t @ lit '' '') @ lit ''already exists'' @ []"
    by (simp add: table_exists_error_def lit_def)
  then show ?thesis by (simp only: strings_Contains_append)
qed

lemma plain_rejectionsD:
  "plain_rejections vet \<Longrightarrow> vet q = Some msg \<Longrightarrow> \<not> strings_Contains msg (lit ''already exists'')"
  by (simp add: plain_rejections_def)

lemma insertRecords_run_fatal:
  "insertRecords env st t fns n rs =
     run_fatal env st (map (\<lambda>r. (InsertInto t fns (recordValues n r), InsertError)) rs)"
  by (induction rs arbitrary: st) (simp_all split: sum.split)

lemma Exec_drop_sqlite:
  assumes "db_Exec env = sqlite_Exec vet"
  shows "Exec env st (DropTableIfExists t) =
           (case vet (DropTableIfExists t) of
              Some msg \<Rightarrow> Inl msg
            | None \<Rightarrow> Inr (st\<lparr>databases := (databases st)(db st := (databases st (db st))(t := None))\<rparr>))"
  by (simp add: Exec_def assms sqlite_Exec_def split: option.split)

lemma Exec_create_sqlite:
  assumes "db_Exec env = sqlite_Exec vet"
  shows "Exec env st (CreateTable t cols) =
           (case vet (CreateTable t cols) of
              Some msg \<Rightarrow> Inl msg
            | None \<Rightarrow>
                (case databases st (db st) t of
                   Some T \<Rightarrow> Inl (table_exists_error t)
                 | None \<Rightarrow> Inr (st\<lparr>databases := (databases st)
                     (db st := (databases st (db st))(t \<mapsto> \<lparr>columns = cols, rows = []\<rparr>))\<rparr>)))"
  by (simp add: Exec_def assms sqlite_Exec_def split: option.split)





text \<open>
  Where the engine is the model and none of its other messages holds the words "already
  exists", the ingester follows the policy as the specification words it.
\<close>

lemma ingest_as_specified_plain:
  assumes "db_Exec env = sqlite_Exec vet" and "plain_rejections vet"
  shows "(input \<noteq> Inr [] \<longrightarrow>
            createTableFromReader env st t input f = ingest_as_specified env st t input f)
         \<and> (os_Open env f \<noteq> Inr (Inr []) \<longrightarrow>
              createTableFromCSV env st t f = ingest_file_as_specified env st t f)"
proof -
  have main: "createTableFromReader env s t i f = ingest_as_specified env s t i f"
    if "i \<noteq> Inr []" for s i
  proof (cases i)
    case (Inl err)
    then show ?thesis by (simp add: createTableFromReader_def ingest_as_specified_def)
  next
    case (Inr records)
    with that obtain header rs where r: "records = header # rs" by (cases records) auto
    let ?fns = "map (sanitized_letter_or_number (unicode env)) header"
    show ?thesis
    proof (cases "Replacing s")
      case True
      let ?s1 = "s\<lparr>databases := (databases s)(db s := (databases s (db s))(t := None))\<rparr>"
      have "Exec env ?s1 (CreateTable t ?fns) \<noteq> Inl err \<or> \<not> strings_Contains err (lit ''already exists'')" for err
        using plain_rejectionsD [OF assms(2)]
        by (auto simp: Exec_create_sqlite [OF assms(1)] split: option.splits)
      then show ?thesis
        using True
        by (auto simp: Inr r createTableFromReader_Cons ingest_as_specified_def Let_def
            insertRecords_run_fatal Exec_drop_sqlite [OF assms(1)] split: option.split sum.split)
    next
      case False
      show ?thesis
      proof (cases "Exec env s (CreateTable t ?fns)")
        case (Inr s2)
        then show ?thesis
          using False
          by (simp add: \<open>i = Inr records\<close> r createTableFromReader_Cons ingest_as_specified_def
              Let_def insertRecords_run_fatal)
      next
        case (Inl err)
        show ?thesis
        proof (cases "err = table_exists_error t")
          case True
          then show ?thesis
            using False Inl
            by (simp add: \<open>i = Inr records\<close> r createTableFromReader_Cons ingest_as_specified_def
                Let_def insertRecords_run_fatal table_exists_error_contains)
        next
          case ne: False
          from Inl ne obtain "vet (CreateTable t ?fns) = Some err"
            by (auto simp: Exec_create_sqlite [OF assms(1)] split: option.splits)
          then have "\<not> strings_Contains err (lit ''already exists'')"
            by (rule plain_rejectionsD [OF assms(2)])
          then show ?thesis
            using False Inl ne
            by (simp add: \<open>i = Inr records\<close> r createTableFromReader_Cons ingest_as_specified_def
                Let_def insertRecords_run_fatal)
        qed
      qed
    qed
  qed
  have "createTableFromCSV env st t f = ingest_file_as_specified env st t f"
    if "os_Open env f \<noteq> Inr (Inr [])"
    using that
    by (auto simp: createTableFromCSV_def ingest_file_as_specified_def main split: sum.split)
  with main [of input st] show ?thesis by blast
qed




lemma Exec_insert_sqlite:
  assumes "db_Exec env = sqlite_Exec vet" and "databases st (db st) t = Some T"
  shows "Exec env st (InsertInto t fns vs) =
           (case vet (InsertInto t fns vs) of
              Some msg \<Rightarrow> Inl msg
            | None \<Rightarrow>
                (case find (\<lambda>c. c \<notin> set (columns T)) fns of
                   Some c \<Rightarrow> Inl (lit ''table '' @ t @ lit '' has no column named '' @ c)
                 | None \<Rightarrow> Inr (st\<lparr>databases := (databases st)
                     (db st := (databases st (db st))
                        (t \<mapsto> T\<lparr>rows := rows T @ [bind_row fns vs (columns T)]\<rparr>))\<rparr>)))"
  by (simp add: Exec_def assms sqlite_Exec_def split: option.split)

lemma insertRecords_sqlite:
  assumes "db_Exec env = sqlite_Exec vet" and "databases st (db st) t = Some T"
  shows "(insertRecords env st t fns n rs = Return st') =
           (list_all (\<lambda>r. vet (InsertInto t fns (recordValues n r)) = None
                          \<and> find (\<lambda>c. c \<notin> set (columns T)) fns = None) rs
            \<and> st' = st\<lparr>databases := (databases st)
                (db st := (databases st (db st))
                   (t \<mapsto> T\<lparr>rows := rows T @ map (\<lambda>r. bind_row fns (recordValues n r) (columns T)) rs\<rparr>))\<rparr>)"
  using assms(2)
proof (induction rs arbitrary: st T)
  case Nil
  then have "(databases st (db st))(t \<mapsto> T) = databases st (db st)"
    by (simp add: map_upd_triv)
  then show ?case by auto
next
  case (Cons r rs)
  show ?case
  proof (cases "vet (InsertInto t fns (recordValues n r)) = None
                \<and> find (\<lambda>c. c \<notin> set (columns T)) fns = None")
    case False
    then show ?thesis
      by (auto simp: Exec_insert_sqlite [OF assms(1) Cons.prems] log_Fatalf_def
          split: option.split)
  next
    case True
    let ?T1 = "T\<lparr>rows := rows T @ [bind_row fns (recordValues n r) (columns T)]\<rparr>"
    let ?st1 = "st\<lparr>databases := (databases st)(db st := (databases st (db st))(t \<mapsto> ?T1))\<rparr>"
    let ?ok = "\<lambda>r. vet (InsertInto t fns (recordValues n r)) = None
                  \<and> find (\<lambda>c. c \<notin> set (columns T)) fns = None"
    have e: "Exec env st (InsertInto t fns (recordValues n r)) = Inr ?st1"
      using True by (simp add: Exec_insert_sqlite [OF assms(1) Cons.prems])
    have t1: "databases ?st1 (db ?st1) t = Some ?T1" by simp
    have c1: "columns ?T1 = columns T" by simp
    have eq: "?st1\<lparr>databases := (databases ?st1)
                (db ?st1 := (databases ?st1 (db ?st1))
                   (t \<mapsto> ?T1\<lparr>rows := rows ?T1 @ map (\<lambda>r. bind_row fns (recordValues n r) (columns T)) rs\<rparr>))\<rparr>
              = st\<lparr>databases := (databases st)
                (db st := (databases st (db st))
                   (t \<mapsto> T\<lparr>rows := rows T @ map (\<lambda>r. bind_row fns (recordValues n r) (columns T)) (r # rs)\<rparr>))\<rparr>"
      by simp
    have "(insertRecords env st t fns n (r # rs) = Return st')
            = (insertRecords env ?st1 t fns n rs = Return st')"
      by (simp add: e)
    also have "\<dots> = (list_all ?ok rs \<and> st' = ?st1\<lparr>databases := (databases ?st1)
                (db ?st1 := (databases ?st1 (db ?st1))
                   (t \<mapsto> ?T1\<lparr>rows := rows ?T1 @ map (\<lambda>r. bind_row fns (recordValues n r) (columns T)) rs\<rparr>))\<rparr>)"
      using Cons.IH [OF t1, unfolded c1] .
    also have "\<dots> = (list_all ?ok (r # rs) \<and> st' = st\<lparr>databases := (databases st)
                (db st := (databases st (db st))
                   (t \<mapsto> T\<lparr>rows := rows T @ map (\<lambda>r. bind_row fns (recordValues n r) (columns T)) (r # rs)\<rparr>))\<rparr>)"
      unfolding eq using True by (simp only: list.pred_inject simp_thms)
    finally show ?thesis .
  qed
qed

lemma ingest_sqlite_rejected:
  assumes "db_Exec env = sqlite_Exec vet" and "plain_rejections vet"
    and "(Replacing st \<and> vet (DropTableIfExists t) \<noteq> None)
         \<or> vet (CreateTable t (map (sanitized_letter_or_number (unicode env)) header)) \<noteq> None"
  shows "createTableFromReader env st t (Inr (header # rs)) f \<noteq> Return st'"
  using assms(3) plain_rejectionsD [OF assms(2)]
  by (auto simp: createTableFromReader_Cons Let_def Exec_drop_sqlite [OF assms(1)]
      Exec_create_sqlite [OF assms(1)] log_Fatalf_def split: option.splits)

lemma ingest_sqlite_fresh:
  assumes "db_Exec env = sqlite_Exec vet"
    and "Replacing st \<longrightarrow> vet (DropTableIfExists t) = None"
    and "vet (CreateTable t (map (sanitized_letter_or_number (unicode env)) header)) = None"
    and "Replacing st \<or> databases st (db st) t = None"
  shows "createTableFromReader env st t (Inr (header # rs)) f =
           insertRecords env
             (st\<lparr>databases := (databases st)(db st := (databases st (db st))
                   (t \<mapsto> \<lparr>columns = map (sanitized_letter_or_number (unicode env)) header, rows = []\<rparr>))\<rparr>)
             t (map (sanitized_letter_or_number (unicode env)) header) (length header) rs"
  using assms(2,3,4)
  by (auto simp: createTableFromReader_Cons Let_def Exec_drop_sqlite [OF assms(1)]
      Exec_create_sqlite [OF assms(1)])

lemma ingest_sqlite_existing:
  assumes "db_Exec env = sqlite_Exec vet"
    and "\<not> Replacing st"
    and "vet (CreateTable t (map (sanitized_letter_or_number (unicode env)) header)) = None"
    and "databases st (db st) t = Some T"
  shows "createTableFromReader env st t (Inr (header # rs)) f =
           insertRecords env (log_Printf st (TableAlreadyExists t))
             t (map (sanitized_letter_or_number (unicode env)) header) (length header) rs"
  using assms(2,3,4)
  by (simp add: createTableFromReader_Cons Let_def Exec_create_sqlite [OF assms(1)]
      table_exists_error_contains)

text \<open>
  Claim C3.  Take an ingestion that returned normally, against the model of the engine,
  and run it again with the same source and table name.  In replace mode the second run
  returns normally, logs nothing, and leaves under that name a table with the sanitized
  header as columns and one row for each data row of the source: the rows of the second
  run only.  Without replace mode the second run returns normally as well, logs the
  warning "table already exists", and the table holds what it held before the first run
  followed by the rows of the source twice.  No other table is touched.
\<close>

theorem C3_ingesting_twice:
  assumes eng: "db_Exec env = sqlite_Exec vet" and plain: "plain_rejections vet"
    and first: "createTableFromReader env st t (Inr (header # rs)) f = Return st1"
  shows "\<exists>st2 T1 T2.
           createTableFromReader env st1 t (Inr (header # rs)) f = Return st2
           \<and> databases st1 (db st1) t = Some T1 \<and> databases st2 (db st2) t = Some T2
           \<and> columns T2 = columns T1
           \<and> (\<forall>t'. t' \<noteq> t \<longrightarrow> databases st2 (db st2) t' = databases st (db st) t')
           \<and> (if Replacing st
              then columns T1 = map (sanitized_letter_or_number (unicode env)) header
                   \<and> rows T1 = map (\<lambda>r. bind_row (map (sanitized_letter_or_number (unicode env)) header)
                                          (recordValues (length header) r) (columns T1)) rs
                   \<and> rows T2 = rows T1
                   \<and> stderr st2 = stderr st1
              else rows T1 = (case databases st (db st) t of None \<Rightarrow> [] | Some T0 \<Rightarrow> rows T0)
                       @ map (\<lambda>r. bind_row (map (sanitized_letter_or_number (unicode env)) header)
                                          (recordValues (length header) r) (columns T1)) rs
                   \<and> rows T2 = rows T1
                       @ map (\<lambda>r. bind_row (map (sanitized_letter_or_number (unicode env)) header)
                                          (recordValues (length header) r) (columns T1)) rs
                   \<and> stderr st2 = stderr st1 @ [TableAlreadyExists t])"
proof -
  let ?fns = "map (sanitized_letter_or_number (unicode env)) header"
  let ?n = "length header"
  let ?new = "\<lambda>cols. map (\<lambda>r. bind_row ?fns (recordValues ?n r) cols) rs"
  let ?ok = "\<lambda>cols. list_all (\<lambda>r. vet (InsertInto t ?fns (recordValues ?n r)) = None
                                  \<and> find (\<lambda>c. c \<notin> set cols) ?fns = None) rs"
  let ?put = "\<lambda>s T. s\<lparr>databases := (databases s)(db s := (databases s (db s))(t \<mapsto> T))\<rparr>"
  from first ingest_sqlite_rejected [OF eng plain, of st t header rs f st1]
  have vd: "Replacing st \<longrightarrow> vet (DropTableIfExists t) = None"
    and vc: "vet (CreateTable t ?fns) = None"
    by blast+
  show ?thesis
  proof (cases "Replacing st \<or> databases st (db st) t = None")
    case True
    let ?T0 = "\<lparr>columns = ?fns, rows = []\<rparr>"
    let ?T1 = "\<lparr>columns = ?fns, rows = ?new ?fns\<rparr>"
    let ?s0 = "?put st ?T0"
    have t0: "databases ?s0 (db ?s0) t = Some ?T0" by simp
    have "insertRecords env ?s0 t ?fns ?n rs = Return st1"
      using first ingest_sqlite_fresh [OF eng vd vc True, of rs f] by simp
    then have ok: "?ok ?fns" and s1: "st1 = ?put st ?T1"
      by (simp_all add: insertRecords_sqlite [OF eng t0])
    have t1: "databases st1 (db st1) t = Some ?T1" by (simp add: s1)
    show ?thesis
    proof (cases "Replacing st")
      case r: True
      have r1: "Replacing st1 \<or> databases st1 (db st1) t = None" by (simp add: s1 r)
      have vd1: "Replacing st1 \<longrightarrow> vet (DropTableIfExists t) = None" using vd r by simp
      let ?s0' = "?put st1 ?T0"
      have t0': "databases ?s0' (db ?s0') t = Some ?T0" by simp
      have "createTableFromReader env st1 t (Inr (header # rs)) f
              = insertRecords env ?s0' t ?fns ?n rs"
        by (rule ingest_sqlite_fresh [OF eng vd1 vc r1])
      also have "\<dots> = Return (?put ?s0' ?T1)"
        using ok by (simp add: insertRecords_sqlite [OF eng t0'])
      finally have second: "createTableFromReader env st1 t (Inr (header # rs)) f
              = Return (?put ?s0' ?T1)" .
      show ?thesis
        apply (rule exI [of _ "?put ?s0' ?T1"])
        apply (rule exI [of _ ?T1])
        apply (rule exI [of _ ?T1])
        using r second by (simp add: s1)
    next
      case nr: False
      with True have absent: "databases st (db st) t = None" by simp
      have nr1: "\<not> Replacing st1" by (simp add: s1 nr)
      let ?w = "log_Printf st1 (TableAlreadyExists t)"
      let ?T2 = "\<lparr>columns = ?fns, rows = ?new ?fns @ ?new ?fns\<rparr>"
      have tw: "databases ?w (db ?w) t = Some ?T1" by (simp add: log_Printf_def s1)
      have "createTableFromReader env st1 t (Inr (header # rs)) f
              = insertRecords env ?w t ?fns ?n rs"
        by (rule ingest_sqlite_existing [OF eng nr1 vc t1])
      also have "\<dots> = Return (?put ?w ?T2)"
        using ok by (simp add: insertRecords_sqlite [OF eng tw])
      finally have second: "createTableFromReader env st1 t (Inr (header # rs)) f
              = Return (?put ?w ?T2)" .
      show ?thesis
        apply (rule exI [of _ "?put ?w ?T2"])
        apply (rule exI [of _ ?T1])
        apply (rule exI [of _ ?T2])
        using nr absent second by (simp add: s1 log_Printf_def)
    qed
  next
    case False
    then have nr: "\<not> Replacing st" and "databases st (db st) t \<noteq> None" by simp_all
    then obtain T0 where ex: "databases st (db st) t = Some T0" by blast
    let ?T1 = "T0\<lparr>rows := rows T0 @ ?new (columns T0)\<rparr>"
    let ?T2 = "T0\<lparr>rows := rows T0 @ ?new (columns T0) @ ?new (columns T0)\<rparr>"
    let ?w0 = "log_Printf st (TableAlreadyExists t)"
    have tw0: "databases ?w0 (db ?w0) t = Some T0" by (simp add: log_Printf_def ex)
    have "insertRecords env ?w0 t ?fns ?n rs = Return st1"
      using first ingest_sqlite_existing [OF eng nr vc ex, of rs f] by simp
    then have ok: "?ok (columns T0)" and s1: "st1 = ?put ?w0 ?T1"
      by (simp_all add: insertRecords_sqlite [OF eng tw0])
    have t1: "databases st1 (db st1) t = Some ?T1" by (simp add: s1 log_Printf_def)
    have nr1: "\<not> Replacing st1" by (simp add: s1 nr log_Printf_def)
    let ?w = "log_Printf st1 (TableAlreadyExists t)"
    have tw: "databases ?w (db ?w) t = Some ?T1" by (simp add: log_Printf_def s1)
    have "createTableFromReader env st1 t (Inr (header # rs)) f
            = insertRecords env ?w t ?fns ?n rs"
      by (rule ingest_sqlite_existing [OF eng nr1 vc t1])
    also have "\<dots> = Return (?put ?w ?T2)"
      using ok by (simp add: insertRecords_sqlite [OF eng tw])
    finally have second: "createTableFromReader env st1 t (Inr (header # rs)) f
            = Return (?put ?w ?T2)" .
    show ?thesis
      apply (rule exI [of _ "?put ?w ?T2"])
      apply (rule exI [of _ ?T1])
      apply (rule exI [of _ ?T2])
      using nr ex second by (simp add: s1 log_Printf_def)
  qed
qed

lemma example_sanitized_a: "sanitized_letter_or_number latin1_only (lit ''a'') = lit ''a''"
  by code_simp

lemma example_sanitized_b: "sanitized_letter_or_number latin1_only (lit ''b c'') = lit ''b_c''"
  by code_simp

lemma example_ingestion_fresh:
  assumes "Replacing s \<or> databases s (db s) t = None"
  shows "createTableFromReader example_env s t (Inr (header # rs)) f
           = Return (s\<lparr>databases := (databases s)(db s := (databases s (db s))
                (t \<mapsto> \<lparr>columns = map (sanitized_letter_or_number latin1_only) header,
                       rows = map (\<lambda>r. bind_row (map (sanitized_letter_or_number latin1_only) header)
                                          (recordValues (length header) r)
                                          (map (sanitized_letter_or_number latin1_only) header)) rs\<rparr>))\<rparr>)"
proof -
  let ?fns = "map (sanitized_letter_or_number latin1_only) header"
  let ?T0 = "\<lparr>columns = ?fns, rows = []\<rparr>"
  let ?s0 = "s\<lparr>databases := (databases s)(db s := (databases s (db s))(t \<mapsto> ?T0))\<rparr>"
  have e: "db_Exec example_env = sqlite_Exec accept_all" by (simp add: example_env_def)
  have u: "unicode example_env = latin1_only" by (simp add: example_env_def)
  have t0: "databases ?s0 (db ?s0) t = Some ?T0" by simp
  have f: "find (\<lambda>c. c \<notin> set ?fns) ?fns = None" by (simp add: find_None_iff)
  have "createTableFromReader example_env s t (Inr (header # rs)) f
          = insertRecords example_env ?s0 t ?fns (length header) rs"
    using assms ingest_sqlite_fresh [OF e, of s t header rs f]
    by (simp add: accept_all_def u)
  also have "\<dots> = Return (?s0\<lparr>databases := (databases ?s0)(db ?s0 := (databases ?s0 (db ?s0))
                (t \<mapsto> ?T0\<lparr>rows := rows ?T0 @ map (\<lambda>r. bind_row ?fns (recordValues (length header) r) (columns ?T0)) rs\<rparr>))\<rparr>)"
    unfolding insertRecords_sqlite [OF e t0]
    using f by (simp add: accept_all_def list_all_iff del: find_None_iff)
  finally show ?thesis by simp
qed

lemma example_first_ingestion:
  assumes "Replacing s \<or> databases s (db s) (lit ''t'') = None"
  shows "createTableFromReader example_env s (lit ''t'') (Inr [[lit ''a''], [lit ''1'']]) (lit ''t.csv'')
           = Return (s\<lparr>databases := (databases s)(db s := (databases s (db s))
                (lit ''t'' \<mapsto> \<lparr>columns = [lit ''a''], rows = [[Some (lit ''1'')]]\<rparr>))\<rparr>)"
  by (simp add: example_ingestion_fresh [OF assms] example_sanitized_a recordValues_eq bind_row_def)

theorem C3_ingesting_twice_witness:
  "db_Exec example_env = sqlite_Exec accept_all \<and> plain_rejections accept_all
   \<and> createTableFromReader example_env example_world (lit ''t'')
         (Inr [[lit ''a''], [lit ''1'']]) (lit ''t.csv'')
       = Return (example_world\<lparr>databases := no_tables([] := [lit ''t'' \<mapsto> \<lparr>columns = [lit ''a''], rows = [[Some (lit ''1'')]]\<rparr>])\<rparr>)
   \<and> (\<exists>st2 T2.
         createTableFromReader example_env
             (example_world\<lparr>databases := no_tables([] := [lit ''t'' \<mapsto> \<lparr>columns = [lit ''a''], rows = [[Some (lit ''1'')]]\<rparr>])\<rparr>)
             (lit ''t'') (Inr [[lit ''a''], [lit ''1'']]) (lit ''t.csv'') = Return st2
         \<and> databases st2 (db st2) (lit ''t'') = Some T2
         \<and> rows T2 = [[Some (lit ''1'')], [Some (lit ''1'')]]
         \<and> stderr st2 = [TableAlreadyExists (lit ''t'')])
   \<and> createTableFromReader example_env (example_world\<lparr>Replacing := True\<rparr>) (lit ''t'')
         (Inr [[lit ''a''], [lit ''1'']]) (lit ''t.csv'')
       = Return (example_world\<lparr>Replacing := True, databases := no_tables([] := [lit ''t'' \<mapsto> \<lparr>columns = [lit ''a''], rows = [[Some (lit ''1'')]]\<rparr>])\<rparr>)
   \<and> (\<exists>st2 T2.
         createTableFromReader example_env
             (example_world\<lparr>Replacing := True, databases := no_tables([] := [lit ''t'' \<mapsto> \<lparr>columns = [lit ''a''], rows = [[Some (lit ''1'')]]\<rparr>])\<rparr>)
             (lit ''t'') (Inr [[lit ''a''], [lit ''1'']]) (lit ''t.csv'') = Return st2
         \<and> databases st2 (db st2) (lit ''t'') = Some T2
         \<and> rows T2 = [[Some (lit ''1'')]]
         \<and> stderr st2 = [])"
proof -
  let ?T = "\<lparr>columns = [lit ''a''], rows = [[Some (lit ''1'')]]\<rparr>"
  let ?W1 = "example_world\<lparr>databases := no_tables([] := [lit ''t'' \<mapsto> ?T])\<rparr>"
  let ?R = "example_world\<lparr>Replacing := True\<rparr>"
  let ?R1 = "example_world\<lparr>Replacing := True, databases := no_tables([] := [lit ''t'' \<mapsto> ?T])\<rparr>"
  let ?recs = "Inr [[lit ''a''], [lit ''1'']] :: error + gostring list list"
  have e: "db_Exec example_env = sqlite_Exec accept_all" by (simp add: example_env_def)
  have p: "plain_rejections accept_all" by (simp add: plain_rejections_def accept_all_def)
  have u: "unicode example_env = latin1_only" by (simp add: example_env_def)
  have first: "createTableFromReader example_env example_world (lit ''t'') ?recs (lit ''t.csv'') = Return ?W1"
    by (subst example_first_ingestion) (simp_all add: example_world_def no_tables_def)
  have firstR: "createTableFromReader example_env ?R (lit ''t'') ?recs (lit ''t.csv'') = Return ?R1"
    by (subst example_first_ingestion) (simp_all add: example_world_def no_tables_def)
  from C3_ingesting_twice [OF e p first] obtain st2 T1 T2 where
    a: "createTableFromReader example_env ?W1 (lit ''t'') ?recs (lit ''t.csv'') = Return st2"
      "databases ?W1 (db ?W1) (lit ''t'') = Some T1" "databases st2 (db st2) (lit ''t'') = Some T2"
      "rows T2 = rows T1 @ map (\<lambda>r. bind_row [sanitized_letter_or_number latin1_only (lit ''a'')]
                                   (recordValues 1 r) (columns T1)) [[lit ''1'']]"
      "stderr st2 = stderr ?W1 @ [TableAlreadyExists (lit ''t'')]"
    by (auto simp: example_world_def u)
  from a(2) have T1: "T1 = ?T" by (simp add: example_world_def)
  have a4: "rows T2 = [[Some (lit ''1'')], [Some (lit ''1'')]]"
    using a(4) by (simp add: T1 example_sanitized_a recordValues_eq bind_row_def)
  have a5: "stderr st2 = [TableAlreadyExists (lit ''t'')]"
    using a(5) by (simp add: example_world_def)
  from C3_ingesting_twice [OF e p firstR] obtain sr2 R1 R2 where
    b: "createTableFromReader example_env ?R1 (lit ''t'') ?recs (lit ''t.csv'') = Return sr2"
      "databases ?R1 (db ?R1) (lit ''t'') = Some R1" "databases sr2 (db sr2) (lit ''t'') = Some R2"
      "rows R2 = rows R1" "stderr sr2 = stderr ?R1"
    by (auto simp: example_world_def u)
  from b(2) have R1: "R1 = ?T" by (simp add: example_world_def)
  have b4: "rows R2 = [[Some (lit ''1'')]]" using b(4) by (simp add: R1)
  have b5: "stderr sr2 = []" using b(5) by (simp add: example_world_def)
  show ?thesis
    using e p first firstR a(1,3) a4 a5 b(1,3) b4 b5 by blast
qed

lemma bind_row_distinct:
  assumes "distinct cols" and "length cols \<le> length args"
  shows "bind_row cols args cols = take (length cols) args"
proof (rule nth_equalityI)
  show "length (bind_row cols args cols) = length (take (length cols) args)"
    using assms(2) by (simp add: bind_row_def)
next
  fix i
  assume "i < length (bind_row cols args cols)"
  then have i: "i < length cols" by (simp add: bind_row_def)
  have d: "distinct (map fst (zip cols args))"
    using assms by (simp add: map_fst_zip_take)
  have "(cols ! i, args ! i) \<in> set (zip cols args)"
    using i assms(2) by (auto simp: set_zip)
  then have "map_of (zip cols args) (cols ! i) = Some (args ! i)"
    using d by (rule map_of_is_SomeI [rotated])
  then show "bind_row cols args cols ! i = take (length cols) args ! i"
    using i by (simp add: bind_row_def)
qed

text \<open>
  Claim C1, as amended.  Take an ingestion, against the model of the engine, of a source
  whose header row has N cells, that creates its table (replace mode, or no table of that
  name before) and returns.  The table it leaves has exactly the N sanitized header cells
  as columns, and one row for each data row, bound from the values that row supplies.  A
  data row of at most N fields supplies exactly N values, its fields and then a null for
  each missing trailing field, and, the column names being distinct, that is its row in
  the table.  A data row of more than N fields supplies all its fields, which are more
  than N.
\<close>

theorem C1_columns_and_values:
  assumes eng: "db_Exec env = sqlite_Exec vet" and plain: "plain_rejections vet"
    and fresh: "Replacing st \<or> databases st (db st) t = None"
    and ret: "createTableFromReader env st t (Inr (header # rs)) f = Return st1"
  shows "\<exists>T. databases st1 (db st1) t = Some T
           \<and> columns T = map (sanitized_letter_or_number (unicode env)) header
           \<and> length (columns T) = length header
           \<and> rows T = map (\<lambda>r. bind_row (columns T) (recordValues (length header) r) (columns T)) rs
           \<and> (\<forall>r. length r \<le> length header \<longrightarrow>
                  recordValues (length header) r
                    = map Some r @ replicate (length header - length r) None
                  \<and> length (recordValues (length header) r) = length header
                  \<and> (distinct (columns T) \<longrightarrow>
                       bind_row (columns T) (recordValues (length header) r) (columns T)
                         = recordValues (length header) r))
           \<and> (\<forall>r. length header < length r \<longrightarrow>
                  recordValues (length header) r = map Some r
                  \<and> length (recordValues (length header) r) > length header)"
proof -
  let ?fns = "map (sanitized_letter_or_number (unicode env)) header"
  let ?n = "length header"
  let ?T0 = "\<lparr>columns = ?fns, rows = []\<rparr>"
  let ?T1 = "\<lparr>columns = ?fns, rows = map (\<lambda>r. bind_row ?fns (recordValues ?n r) ?fns) rs\<rparr>"
  let ?s0 = "st\<lparr>databases := (databases st)(db st := (databases st (db st))(t \<mapsto> ?T0))\<rparr>"
  from ret ingest_sqlite_rejected [OF eng plain, of st t header rs f st1]
  have vd: "Replacing st \<longrightarrow> vet (DropTableIfExists t) = None"
    and vc: "vet (CreateTable t ?fns) = None"
    by blast+
  have t0: "databases ?s0 (db ?s0) t = Some ?T0" by simp
  have "insertRecords env ?s0 t ?fns ?n rs = Return st1"
    using ret ingest_sqlite_fresh [OF eng vd vc fresh, of rs f] by simp
  then have t1: "databases st1 (db st1) t = Some ?T1"
    by (simp add: insertRecords_sqlite [OF eng t0])
  have pad: "bind_row ?fns (recordValues ?n r) ?fns = recordValues ?n r"
    if "length r \<le> ?n" "distinct ?fns" for r
    using that bind_row_distinct [of ?fns "recordValues ?n r"] by (simp add: recordValues_eq)
  show ?thesis
    apply (rule exI [of _ ?T1])
    using t1 pad by (simp add: recordValues_eq)
qed

theorem C1_columns_and_values_witness:
  "db_Exec example_env = sqlite_Exec accept_all \<and> plain_rejections accept_all
   \<and> (Replacing example_world \<or> databases example_world (db example_world) (lit ''t'') = None)
   \<and> createTableFromReader example_env example_world (lit ''t'')
         (Inr [[lit ''a'', lit ''b c''], [lit ''1''], [lit ''2'', lit ''3'']]) (lit ''t.csv'')
       = Return (example_world\<lparr>databases := no_tables([] := [lit ''t'' \<mapsto>
            \<lparr>columns = [lit ''a'', lit ''b_c''],
             rows = [[Some (lit ''1''), None], [Some (lit ''2''), Some (lit ''3'')]]\<rparr>])\<rparr>)
   \<and> recordValues 2 [lit ''1''] = [Some (lit ''1''), None]
   \<and> length (recordValues 2 [lit ''1'']) = 2"
proof -
  let ?recs = "Inr [[lit ''a'', lit ''b c''], [lit ''1''], [lit ''2'', lit ''3'']] :: error + gostring list list"
  let ?T = "\<lparr>columns = [lit ''a'', lit ''b_c''],
             rows = [[Some (lit ''1''), None], [Some (lit ''2''), Some (lit ''3'')]]\<rparr>"
  let ?W1 = "example_world\<lparr>databases := no_tables([] := [lit ''t'' \<mapsto> ?T])\<rparr>"
  have e: "db_Exec example_env = sqlite_Exec accept_all" by (simp add: example_env_def)
  have p: "plain_rejections accept_all" by (simp add: plain_rejections_def accept_all_def)
  have fr: "Replacing example_world \<or> databases example_world (db example_world) (lit ''t'') = None"
    by (simp add: example_world_def no_tables_def)
  have ret: "createTableFromReader example_env example_world (lit ''t'') ?recs (lit ''t.csv'') = Return ?W1"
  proof -
    have ne: "lit ''a'' \<noteq> lit ''b_c''" "lit ''b_c'' \<noteq> lit ''a''" by (simp_all add: lit_def)
    show ?thesis
      by (subst example_ingestion_fresh [OF fr])
        (simp add: example_sanitized_a example_sanitized_b recordValues_eq bind_row_def ne
          example_world_def no_tables_def)
  qed
  from C1_columns_and_values [OF e p fr ret]
  have "recordValues 2 [lit ''1''] = [Some (lit ''1''), None] \<and> length (recordValues 2 [lit ''1'']) = 2"
  proof (elim exE conjE)
    fix T
    assume "\<forall>r. length r \<le> length [lit ''a'', lit ''b c''] \<longrightarrow>
        recordValues (length [lit ''a'', lit ''b c'']) r
          = map Some r @ replicate (length [lit ''a'', lit ''b c''] - length r) None
        \<and> length (recordValues (length [lit ''a'', lit ''b c'']) r) = length [lit ''a'', lit ''b c'']
        \<and> (distinct (columns T) \<longrightarrow>
             bind_row (columns T) (recordValues (length [lit ''a'', lit ''b c'']) r) (columns T)
               = recordValues (length [lit ''a'', lit ''b c'']) r)"
    from this [rule_format, of "[lit ''1'']"] show ?thesis
      by (simp add: numeral_2_eq_2)
  qed
  with e p fr ret show ?thesis by blast
qed

text \<open>
  Claim C1 as it is stated fails on a data row longer than the header: under the one-cell
  header \<open>a\<close> the row \<open>1,2\<close> supplies two values to its insert statement, not one.  The
  engine that records the statements shows the statement.
\<close>

theorem C1_long_row_supplies_more:
  "createTableFromReader recording_env recording_world (lit ''t'')
       (Inr [[lit ''a''], [lit ''1'', lit ''2'']]) (lit ''t.csv'')
     = Return (recording_world\<lparr>databases := no_statements
         ([] := [CreateTable (lit ''t'') [lit ''a''],
                 InsertInto (lit ''t'') [lit ''a''] [Some (lit ''1''), Some (lit ''2'')]])\<rparr>)
   \<and> length (recordValues (length [lit ''a'']) [lit ''1'', lit ''2'']) = 2"
proof -
  have e: "db_Exec recording_env = record_Exec" by (simp add: recording_env_def)
  have u: "unicode recording_env = latin1_only" by (simp add: recording_env_def)
  show ?thesis
    by (simp add: createTableFromReader_record [OF e] u example_sanitized_a recordValues_eq
        recording_world_def no_statements_def)
qed

section \<open>Properties of the argument dispatcher\<close>

lemma main_loop_csv:
  assumes "strings_HasSuffix arg (lit ''.csv'')"
  shows "main_loop env st tableName (arg # rest) =
     (case createTableFromCSV env st
             (if tableName = [] then sanitized_letter_or_number (unicode env) arg else tableName) arg of
        Return st1 \<Rightarrow> main_loop env st1 [] rest
      | Fatal st1 \<Rightarrow> Fatal st1
      | Panic st1 \<Rightarrow> Panic st1)"
proof -
  have "arg \<notin> set (map lit [''--plain-text'', ''--plain'', ''--text'', ''--replace'', ''--db'',
                          ''--table'', ''--no-headers'', ''--no-header'', ''--headers''])"
    using assms by (auto simp: strings_HasSuffix_def lit_def)
  then show ?thesis
    using assms by (subst main_loop.simps) (simp add: sqlNameFromString_eq)
qed

lemma main_loop_step:
  assumes "p \<noteq> lit ''--db''" and "p \<noteq> lit ''--table''"
  obtains (stop) out where "exit_status out \<noteq> 0"
      and "\<And>xs. main_loop env st tableName (p # xs) = out"
    | (go) st' tableName' where
      "\<And>xs. main_loop env st tableName (p # xs) = main_loop env st' tableName' xs"
proof -
  let ?c1 = "p = lit ''--plain-text'' \<or> p = lit ''--plain'' \<or> p = lit ''--text''"
  let ?c2 = "p = lit ''--replace''"
  let ?c5 = "p = lit ''--no-headers'' \<or> p = lit ''--no-header''"
  let ?c6 = "p = lit ''--headers''"
  let ?c7 = "strings_HasSuffix p (lit ''.csv'')"
  let ?c8 = "strings_HasSuffix p (lit ''.sql'')"
  let ?c9 = "p = lit ''stdin''"
  let ?c10 = "strings_HasPrefix p (lit ''select'')"
  note flags = assms
  consider (plain) ?c1
    | (replace) "\<not> ?c1" ?c2
    | (noheaders) "\<not> ?c1" "\<not> ?c2" ?c5
    | (headers) "\<not> ?c1" "\<not> ?c2" "\<not> ?c5" ?c6
    | (csv) "\<not> ?c1" "\<not> ?c2" "\<not> ?c5" "\<not> ?c6" ?c7
    | (sql) "\<not> ?c1" "\<not> ?c2" "\<not> ?c5" "\<not> ?c6" "\<not> ?c7" ?c8
    | (stdin) "\<not> ?c1" "\<not> ?c2" "\<not> ?c5" "\<not> ?c6" "\<not> ?c7" "\<not> ?c8" ?c9
    | (select) "\<not> ?c1" "\<not> ?c2" "\<not> ?c5" "\<not> ?c6" "\<not> ?c7" "\<not> ?c8" "\<not> ?c9" ?c10
    | (unknown) "\<not> ?c1" "\<not> ?c2" "\<not> ?c5" "\<not> ?c6" "\<not> ?c7" "\<not> ?c8" "\<not> ?c9" "\<not> ?c10"
    by blast
  then show thesis
  proof cases
    case plain
    have "main_loop env st tableName (p # xs) = main_loop env (st\<lparr>WritePlainText := True\<rparr>) tableName xs" for xs
      using plain by (subst main_loop.simps) simp
    then show thesis by (rule go)
  next
    case replace
    have "main_loop env st tableName (p # xs) = main_loop env (st\<lparr>Replacing := True\<rparr>) tableName xs" for xs
      using replace by (subst main_loop.simps) simp
    then show thesis by (rule go)
  next
    case noheaders
    have "main_loop env st tableName (p # xs) = main_loop env (st\<lparr>HeadersOn := False\<rparr>) tableName xs" for xs
      using noheaders flags by (subst main_loop.simps) simp
    then show thesis by (rule go)
  next
    case headers
    have "main_loop env st tableName (p # xs) = main_loop env (st\<lparr>HeadersOn := True\<rparr>) tableName xs" for xs
      using headers flags by (subst main_loop.simps) simp
    then show thesis by (rule go)
  next
    case csv
    let ?name = "if tableName = [] then sanitized_letter_or_number (unicode env) p else tableName"
    have eq: "main_loop env st tableName (p # xs) =
        (case createTableFromCSV env st ?name p of
           Return st1 \<Rightarrow> main_loop env st1 [] xs
         | Fatal st1 \<Rightarrow> Fatal st1
         | Panic st1 \<Rightarrow> Panic st1)" for xs
      using csv(5) by (rule main_loop_csv)
    show thesis
    proof (cases "createTableFromCSV env st ?name p")
      case (Return st1)
      then show thesis using eq go by simp
    next
      case (Fatal st1)
      then show thesis using eq stop [of "Fatal st1"] by simp
    next
      case (Panic st1)
      then show thesis using eq stop [of "Panic st1"] by simp
    qed
  next
    case sql
    have eq: "main_loop env st tableName (p # xs) =
        (case readSQLFile env st p of
           Inl exit \<Rightarrow> exit
         | Inr query \<Rightarrow>
             (case executeQuery env st query of
                Return st1 \<Rightarrow> main_loop env st1 tableName xs
              | Fatal st1 \<Rightarrow> Fatal st1
              | Panic st1 \<Rightarrow> Panic st1))" for xs
      using sql flags by (subst main_loop.simps) simp
    show thesis
    proof (cases "os_ReadFile env p")
      case (Inl err)
      then show thesis
        using eq stop [of "log_Fatalf st (ReadSQLFileError p err)"]
        by (simp add: readSQLFile_def log_Fatalf_def)
    next
      case (Inr query)
      then have r: "readSQLFile env st p = Inr query" by (simp add: readSQLFile_def)
      show thesis
      proof (cases "executeQuery env st query")
        case (Return st1)
        then show thesis using eq r go by simp
      next
        case (Fatal st1)
        then show thesis using eq r stop [of "Fatal st1"] by simp
      next
        case (Panic st1)
        then show thesis using eq r stop [of "Panic st1"] by simp
      qed
    qed
  next
    case stdin
    let ?name = "if tableName = [] then lit ''stdin'' else tableName"
    have eq: "main_loop env st tableName (p # xs) =
        (case createTableFromReader env (st\<lparr>stdin := Inr []\<rparr>) ?name (stdin st) (lit ''stdin'') of
           Return st1 \<Rightarrow> main_loop env st1 ?name xs
         | Fatal st1 \<Rightarrow> Fatal st1
         | Panic st1 \<Rightarrow> Panic st1)" for xs
      using stdin(7) by (simp add: main_loop_stdin Let_def)
    show thesis
    proof (cases "createTableFromReader env (st\<lparr>stdin := Inr []\<rparr>) ?name (stdin st) (lit ''stdin'')")
      case (Return st1)
      then show thesis using eq go by simp
    next
      case (Fatal st1)
      then show thesis using eq stop [of "Fatal st1"] by simp
    next
      case (Panic st1)
      then show thesis using eq stop [of "Panic st1"] by simp
    qed
  next
    case select
    have eq: "main_loop env st tableName (p # xs) =
        (case executeQuery env st p of
           Return st1 \<Rightarrow> main_loop env st1 tableName xs
         | Fatal st1 \<Rightarrow> Fatal st1
         | Panic st1 \<Rightarrow> Panic st1)" for xs
      using select flags by (subst main_loop.simps) simp
    show thesis
    proof (cases "executeQuery env st p")
      case (Return st1)
      then show thesis using eq go by simp
    next
      case (Fatal st1)
      then show thesis using eq stop [of "Fatal st1"] by simp
    next
      case (Panic st1)
      then show thesis using eq stop [of "Panic st1"] by simp
    qed
  next
    case unknown
    have "main_loop env st tableName (p # xs) = log_Fatalf st (UnknownArgument p)" for xs
      using unknown flags by (subst main_loop.simps) simp
    then show thesis using stop [of "log_Fatalf st (UnknownArgument p)"] by (simp add: log_Fatalf_def)
  qed
qed

lemma unknown_argument_later:
  assumes "matches_no_rule arg"
    and "lit ''--db'' \<notin> set pre" and "lit ''--table'' \<notin> set pre"
  shows "exit_status (main_loop env st tableName (pre @ arg # rest)) \<noteq> 0
         \<and> main_loop env st tableName (pre @ arg # rest) = main_loop env st tableName (pre @ [arg])"
  using assms(2,3)
proof (induction pre arbitrary: st tableName)
  case Nil
  have "main_loop env st tableName (arg # xs) = log_Fatalf st (UnknownArgument arg)" for xs
    using assms(1) by (subst main_loop.simps) (simp add: matches_no_rule_def)
  then show ?case by (simp add: log_Fatalf_def)
next
  case (Cons p pre)
  then have p: "p \<noteq> lit ''--db''" "p \<noteq> lit ''--table''"
    and pre: "lit ''--db'' \<notin> set pre" "lit ''--table'' \<notin> set pre"
    by auto
  from p show ?case
  proof (cases rule: main_loop_step [of p env st tableName])
    case (stop out)
    then show ?thesis by simp
  next
    case (go st' tableName')
    have e1: "main_loop env st tableName ((p # pre) @ arg # rest)
                = main_loop env st' tableName' (pre @ arg # rest)"
      and e2: "main_loop env st tableName ((p # pre) @ [arg])
                = main_loop env st' tableName' (pre @ [arg])"
      by (simp_all add: go)
    show ?thesis unfolding e1 e2 by (rule Cons.IH [OF pre])
  qed
qed

text \<open>
  Claim C9.  When the dispatcher comes to a token that matches none of its rules, the
  process exits at once with status 1: the outcome is the state as it was on reaching the
  token, with the "unknown argument" line logged, whatever tokens follow.  So in an
  argument sequence that holds such a token, with no \<open>--db\<close> or \<open>--table\<close> before it
  (they take the token after them as their operand), the process exits with a status
  other than 0, at that token or at an earlier one, and the outcome is the same whatever
  the tokens after it.
\<close>

theorem C9_unknown_argument_is_fatal:
  assumes "matches_no_rule arg"
  shows "main_loop env st tableName (arg # rest)
           = Fatal (st\<lparr>stderr := stderr st @ [UnknownArgument arg]\<rparr>)
         \<and> exit_status (main_loop env st tableName (arg # rest)) = 1
         \<and> (lit ''--db'' \<notin> set pre \<and> lit ''--table'' \<notin> set pre \<longrightarrow>
              exit_status (main_loop env st tableName (pre @ arg # rest)) \<noteq> 0
              \<and> main_loop env st tableName (pre @ arg # rest)
                  = main_loop env st tableName (pre @ [arg]))"
proof -
  have "main_loop env st tableName (arg # rest) = log_Fatalf st (UnknownArgument arg)"
    using assms by (subst main_loop.simps) (simp add: matches_no_rule_def)
  then have a: "main_loop env st tableName (arg # rest)
               = Fatal (st\<lparr>stderr := stderr st @ [UnknownArgument arg]\<rparr>)"
    by (simp add: log_Fatalf_def log_Printf_def)
  then have b: "exit_status (main_loop env st tableName (arg # rest)) = 1"
    by simp
  have c: "lit ''--db'' \<notin> set pre \<and> lit ''--table'' \<notin> set pre \<longrightarrow>
              exit_status (main_loop env st tableName (pre @ arg # rest)) \<noteq> 0
              \<and> main_loop env st tableName (pre @ arg # rest)
                  = main_loop env st tableName (pre @ [arg])"
    using unknown_argument_later [OF assms, of pre env st tableName rest] by blast
  show ?thesis by (intro conjI) (fact a, fact b, fact c)
qed

theorem C9_unknown_argument_is_fatal_witness:
  "matches_no_rule (lit ''--bogus'')
   \<and> main_loop example_env example_world [] [lit ''--bogus'', lit ''stdin'']
       = Fatal (example_world\<lparr>stderr := [UnknownArgument (lit ''--bogus'')]\<rparr>)
   \<and> exit_status (main_loop example_env example_world [] [lit ''--bogus'', lit ''stdin'']) = 1
   \<and> lit ''--db'' \<notin> set [lit ''--replace''] \<and> lit ''--table'' \<notin> set [lit ''--replace'']
   \<and> exit_status (main_loop example_env example_world []
         [lit ''--replace'', lit ''--bogus'', lit ''stdin'']) \<noteq> 0
   \<and> main_loop example_env example_world [] [lit ''--replace'', lit ''--bogus'', lit ''stdin'']
       = main_loop example_env example_world [] [lit ''--replace'', lit ''--bogus'']"
proof -
  have m: "matches_no_rule (lit ''--bogus'')"
    by (simp add: matches_no_rule_def strings_HasSuffix_def strings_HasPrefix_def lit_def)
  have n: "lit ''--db'' \<notin> set [lit ''--replace'']" "lit ''--table'' \<notin> set [lit ''--replace'']"
    by (simp_all add: lit_def)
  note i = C9_unknown_argument_is_fatal [OF m, of example_env example_world "[]" "[lit ''stdin'']"
      "[lit ''--replace'']"]
  have w1: "main_loop example_env example_world [] [lit ''--bogus'', lit ''stdin'']
       = Fatal (example_world\<lparr>stderr := [UnknownArgument (lit ''--bogus'')]\<rparr>)"
    using i [THEN conjunct1] by (simp add: example_world_def)
  note w2 = i [THEN conjunct2, THEN conjunct1]
  from i n have "exit_status (main_loop example_env example_world []
         ([lit ''--replace''] @ lit ''--bogus'' # [lit ''stdin''])) \<noteq> 0
     \<and> main_loop example_env example_world [] ([lit ''--replace''] @ lit ''--bogus'' # [lit ''stdin''])
       = main_loop example_env example_world [] ([lit ''--replace''] @ [lit ''--bogus''])"
    by blast
  note w3 = this [unfolded append.simps]
  show ?thesis
    by (intro conjI)
      (fact m, fact w1, fact w2, fact n(1), fact n(2), fact w3 [THEN conjunct1],
        fact w3 [THEN conjunct2])
qed

text \<open>
  Claim C2 holds for a \<open>.csv\<close> token (\<open>main_loop_csv\<close>: the loop goes on with the empty
  override) and fails for the \<open>stdin\<close> token (\<open>main_loop_stdin\<close>: the loop goes on with the
  name the ingestion used).  With the arguments \<open>--table t stdin x.csv\<close> the file \<open>x.csv\<close> is
  ingested under the name \<open>t\<close> again: no table \<open>x\<close> is created, the create statement meets
  the table \<open>t\<close> made from standard input, and the row of the file lands there.
\<close>

theorem C2_stdin_keeps_the_override:
  "(case main example_env example_world
           (map lit [''csv2sql'', ''--table'', ''t'', ''stdin'', ''x.csv'']) of
      Return st \<Rightarrow>
        databases st (db st) (lit ''x'') = None
        \<and> map_option rows (databases st (db st) (lit ''t''))
            = Some [[Some (lit ''1''), Some (lit ''2'')], [Some (lit ''3''), Some (lit ''4'')],
                    [Some (lit ''5''), None]]
        \<and> stderr st = [TableAlreadyExists (lit ''t'')]
    | Fatal st \<Rightarrow> False
    | Panic st \<Rightarrow> False)"
  by code_simp

section \<open>The whole program on examples\<close>

text \<open>
  The example of the specification: with the three lines \<open>a,b\<close>, \<open>1,2\<close>, \<open>3,4\<close> on standard
  input, the arguments \<open>stdin\<close> and \<open>select * from stdin\<close> print the same three lines.
\<close>

lemma example_stdin_then_query:
  "(case main example_env example_world (map lit [''csv2sql'', ''stdin'', ''select * from stdin'']) of
      Return st \<Rightarrow> stdout st = lit ''a,b'' @ [0x0A] @ lit ''1,2'' @ [0x0A] @ lit ''3,4'' @ [0x0A]
    | Fatal st \<Rightarrow> False
    | Panic st \<Rightarrow> False)"
  by code_simp

end
